theory Spec2Isabelle
  imports Main "HOL-Library.Product_Lexorder" "HOL-Library.Multiset"
begin

section \<open>Python strings and integers\<close>

text \<open>
  Strings are lists of characters, and a character is a code point below 256: what
  \<open>str.strip\<close>, \<open>str.isdigit\<close> and \<open>int\<close> do is given for these code points, which
  show every case these operations distinguish. Python integers are unbounded, hence
  \<open>int\<close>; the conversions between integers and strings fail above
  \<open>sys.get_int_max_str_digits()\<close> digits, 4300 unless the interpreter is told otherwise,
  which the program never does. The logger is an injected sink and its calls are left
  out of the model.
\<close>

text \<open>The exceptions of the modelled code are all of one class.\<close>

datatype error = ValueError

text \<open>Sequencing of calls that may raise.\<close>

definition bind_err :: "error + 'a \<Rightarrow> ('a \<Rightarrow> error + 'b) \<Rightarrow> error + 'b" where
  "bind_err r f = (case r of Inl e \<Rightarrow> Inl e | Inr x \<Rightarrow> f x)"

text \<open>
  The white space of \<open>str.strip()\<close>: the code points \<open>09-0D\<close>, \<open>1C-20\<close>, \<open>85\<close> and
  \<open>A0\<close>.
\<close>

definition isspace :: "char \<Rightarrow> bool" where
  "isspace c =
     (let n = (of_char c :: nat)
      in (9 \<le> n \<and> n \<le> 13) \<or> (28 \<le> n \<and> n \<le> 32) \<or> n = 133 \<or> n = 160)"

definition strip :: "string \<Rightarrow> string" where
  "strip s = rev (dropWhile isspace (rev (dropWhile isspace s)))"

text \<open>\<open>s.split(sep)\<close> for a one-character separator: never an empty list.\<close>

fun split :: "char \<Rightarrow> string \<Rightarrow> string list" where
  "split sep [] = [[]]"
| "split sep (c # cs) =
     (if c = sep then [] # split sep cs
      else (case split sep cs of w # ws \<Rightarrow> (c # w) # ws | [] \<Rightarrow> [[c]]))"

text \<open>\<open>s.replace(c, '')\<close> removes every occurrence of the character.\<close>

definition remove_char :: "char \<Rightarrow> string \<Rightarrow> string" where
  "remove_char c s = filter (\<lambda>x. x \<noteq> c) s"

text \<open>
  \<open>str.isdigit\<close> is true of the decimal digits \<open>0-9\<close> and of the superscripts
  \<open>B2\<close>, \<open>B3\<close> and \<open>B9\<close>, which \<open>int\<close> does not accept.
\<close>

definition is_decimal :: "char \<Rightarrow> bool" where
  "is_decimal c = (let n = (of_char c :: nat) in 48 \<le> n \<and> n \<le> 57)"

definition is_digit :: "char \<Rightarrow> bool" where
  "is_digit c = (let n = (of_char c :: nat) in is_decimal c \<or> n = 178 \<or> n = 179 \<or> n = 185)"

definition isdigit :: "string \<Rightarrow> bool" where
  "isdigit s = (s \<noteq> [] \<and> list_all is_digit s)"

definition digit_val :: "char \<Rightarrow> nat" where
  "digit_val c = of_char c - 48"

definition digits_value :: "string \<Rightarrow> nat" where
  "digits_value s = foldl (\<lambda>acc c. 10 * acc + digit_val c) 0 s"

text \<open>
  The body of a decimal literal accepted by \<open>int(str)\<close>: digits, with single underscores
  allowed between two digits.
\<close>

fun int_body :: "string \<Rightarrow> bool" where
  "int_body [] = False"
| "int_body [c] = is_decimal c"
| "int_body (c # d # cs) =
     (if is_decimal c then
        (if d = CHR ''_'' then int_body cs else int_body (d # cs))
      else False)"

text \<open>
  The white space that \<open>int\<close> drops around the literal: \<open>09-0D\<close>, \<open>20\<close>, \<open>85\<close> and
  \<open>A0\<close>, but not \<open>1C-1F\<close>.
\<close>

definition int_space :: "char \<Rightarrow> bool" where
  "int_space c =
     (let n = (of_char c :: nat) in (9 \<le> n \<and> n \<le> 13) \<or> n = 32 \<or> n = 133 \<or> n = 160)"

definition int_max_str_digits :: int where
  "int_max_str_digits = 4300"

text \<open>
  \<open>int(s)\<close>: white space around the literal is dropped, one sign is allowed, and the
  literal has at most \<open>int_max_str_digits\<close> digits. \<open>None\<close> stands for the
  \<open>ValueError\<close>.
\<close>

definition py_int :: "string \<Rightarrow> int option" where
  "py_int s =
     (let t = rev (dropWhile int_space (rev (dropWhile int_space s)));
          neg = (t \<noteq> [] \<and> hd t = CHR ''-'');
          body = (if t \<noteq> [] \<and> (hd t = CHR ''-'' \<or> hd t = CHR ''+'') then tl t else t);
          digits = remove_char CHR ''_'' body
      in if int_body body \<and> int (length digits) \<le> int_max_str_digits
         then Some ((if neg then - 1 else 1) * int (digits_value digits))
         else None)"

text \<open>
  The expression \<open>int(s) if s.isdigit() else 0\<close>, which the source writes out for the
  laps: it raises where \<open>isdigit\<close> holds and \<open>int\<close> fails.
\<close>

definition int_if_isdigit :: "string \<Rightarrow> error + int" where
  "int_if_isdigit s =
     (if isdigit s then (case py_int s of Some n \<Rightarrow> Inr n | None \<Rightarrow> Inl ValueError)
      else Inr 0)"

definition digit_char :: "nat \<Rightarrow> char" where
  "digit_char n = char_of (48 + n)"

function str_nat :: "nat \<Rightarrow> string" where
  "str_nat n = (if n < 10 then [digit_char n] else str_nat (n div 10) @ [digit_char (n mod 10)])"
  by pat_completeness auto
termination
  by (relation "measure id") auto

declare str_nat.simps [simp del]

text \<open>
  \<open>str(n)\<close>, as in \<open>f"{n}"\<close>, and the format \<open>{n:0wd}\<close>, whose width counts the sign.
  Both raise when the number has more than \<open>int_max_str_digits\<close> digits.
\<close>

definition str_int :: "int \<Rightarrow> error + string" where
  "str_int n =
     (let digits = str_nat (nat \<bar>n\<bar>)
      in if int (length digits) > int_max_str_digits then Inl ValueError
         else Inr (if n < 0 then CHR ''-'' # digits else digits))"

definition zfill :: "nat \<Rightarrow> string \<Rightarrow> string" where
  "zfill w s = replicate (w - length s) CHR ''0'' @ s"

definition fmt_0d :: "nat \<Rightarrow> int \<Rightarrow> error + string" where
  "fmt_0d w n =
     (let digits = str_nat (nat \<bar>n\<bar>)
      in if int (length digits) > int_max_str_digits then Inl ValueError
         else Inr (if n < 0 then CHR ''-'' # zfill (w - 1) digits else zfill w digits))"

section \<open>Data model\<close>

datatype SortMode = RACE | QUALIFYING

record Competitor =
  racer_id :: string
  number :: string
  transponder :: string
  first_name :: string
  last_name :: string
  nationality :: string
  additional_data :: string
  category :: string
  category_description :: string
  position :: string
  laps :: string
  total_time :: string
  total_time_milliseconds :: int
  best_position :: string
  best_lap :: string
  best_time :: string
  best_time_milliseconds :: int
  last_lap_time :: string
  last_split_time :: string
  data_updated :: bool
  calculated_diff :: string
  calculated_gap :: string
  display_position :: string
  sort_mode :: int

text \<open>\<open>Competitor(racer_id=r)\<close>: every other field at its dataclass default.\<close>

definition new_Competitor :: "string \<Rightarrow> Competitor" where
  "new_Competitor r =
     \<lparr>racer_id = r, number = [], transponder = [], first_name = [], last_name = [],
      nationality = [], additional_data = [], category = [], category_description = [],
      position = [], laps = [], total_time = [], total_time_milliseconds = 0,
      best_position = [], best_lap = [], best_time = [], best_time_milliseconds = 0,
      last_lap_time = [], last_split_time = [], data_updated = False,
      calculated_diff = [], calculated_gap = [], display_position = [],
      Competitor.sort_mode = 0\<rparr>"

record RaceClass =
  class_id :: string
  description :: string

text \<open>
  The two dictionaries are association lists in insertion order with distinct keys.
  The competitor objects live in \<open>competitors\<close>; \<open>sorted_competitors\<close> holds references
  to the same objects, and a reference is the key under which the object is stored, so
  that a write through either path is seen through the other.
\<close>

record Session =
  session_id :: string
  session_name :: string
  track_name :: string
  track_length :: string
  current_time :: string
  session_time :: string
  time_to_go :: string
  laps_to_go :: string
  flag_status :: string
  sort_mode :: SortMode
  classes :: "(string \<times> RaceClass) list"
  competitors :: "(string \<times> Competitor) list"
  sorted_competitors :: "string list"

definition new_Session :: Session where
  "new_Session =
     \<lparr>session_id = [], session_name = [], track_name = [], track_length = [],
      current_time = [], session_time = [], time_to_go = [], laps_to_go = [],
      flag_status = [], sort_mode = RACE, classes = [], competitors = [],
      sorted_competitors = []\<rparr>"

section \<open>Time codec\<close>

definition sentinel :: string where
  "sentinel = ''00:59:59.999''"

text \<open>
  The body of the \<open>try\<close> block of \<open>convert_time_to_milliseconds\<close>; \<open>None\<close> is any
  exception raised in it: a two-name unpacking of a split with more than two parts, a
  failed \<open>int\<close>, a three-name unpacking of more than three parts.
\<close>

definition convert_body :: "string \<Rightarrow> int option" where
  "convert_body time_str =
     (if time_str = [] \<or> time_str = sentinel then Some 0
      else
        (case (if CHR ''.'' \<in> set time_str
               then (case split CHR ''.'' time_str of
                       [time_part, ms_part] \<Rightarrow>
                         (case py_int ms_part of
                            Some milliseconds \<Rightarrow> Some (time_part, milliseconds)
                          | None \<Rightarrow> None)
                     | _ \<Rightarrow> None)
               else Some (time_str, 0)) of
           None \<Rightarrow> None
         | Some (time_part, milliseconds) \<Rightarrow>
             (let ps = map py_int (split CHR '':'' time_part) in
              if None \<in> set ps then None
              else
                (let parts = map the ps;
                     parts = replicate (3 - length parts) 0 @ parts
                 in (case parts of
                       [hours, minutes, seconds] \<Rightarrow>
                         Some (hours * 60 * 60 * 1000 + minutes * 60 * 1000
                               + seconds * 1000 + milliseconds)
                     | _ \<Rightarrow> None)))))"

definition convert_time_to_milliseconds :: "string \<Rightarrow> int" where
  "convert_time_to_milliseconds time_str =
     (case convert_body time_str of Some total_ms \<Rightarrow> total_ms | None \<Rightarrow> 0)"

definition set_total_time :: "string \<Rightarrow> Competitor \<Rightarrow> Competitor" where
  "set_total_time time_str c =
     (if time_str \<noteq> [] \<and> time_str \<noteq> sentinel
      then c\<lparr>total_time := time_str,
             total_time_milliseconds := convert_time_to_milliseconds time_str\<rparr>
      else c\<lparr>total_time := time_str, total_time_milliseconds := 0\<rparr>)"

definition set_best_time :: "string \<Rightarrow> Competitor \<Rightarrow> Competitor" where
  "set_best_time time_str c =
     (if time_str \<noteq> [] \<and> time_str \<noteq> sentinel
      then c\<lparr>best_time := time_str,
             best_time_milliseconds := convert_time_to_milliseconds time_str\<rparr>
      else c\<lparr>best_time := time_str, best_time_milliseconds := 0\<rparr>)"

text \<open>
  \<open>_format_time_difference\<close>. An f-string formats its fields from left to right and
  raises when one of them does.
\<close>

definition format_time_difference :: "int \<Rightarrow> error + string" where
  "format_time_difference time_diff_ms =
     (if time_diff_ms = 0 then Inr []
      else
        (let hours = time_diff_ms div (60 * 60 * 1000);
             minutes = (time_diff_ms mod (60 * 60 * 1000)) div (60 * 1000);
             seconds = (time_diff_ms mod (60 * 1000)) div 1000;
             milliseconds = time_diff_ms mod 1000
         in if hours > 0
            then bind_err (fmt_0d 2 hours) (\<lambda>hh.
                 bind_err (fmt_0d 2 minutes) (\<lambda>mm.
                 bind_err (fmt_0d 2 seconds) (\<lambda>ss.
                 bind_err (fmt_0d 3 milliseconds) (\<lambda>mmm.
                 Inr (''+'' @ hh @ '':'' @ mm @ '':'' @ ss @ ''.'' @ mmm)))))
            else if minutes > 0
            then bind_err (fmt_0d 2 minutes) (\<lambda>mm.
                 bind_err (fmt_0d 2 seconds) (\<lambda>ss.
                 bind_err (fmt_0d 3 milliseconds) (\<lambda>mmm.
                 Inr (''+'' @ mm @ '':'' @ ss @ ''.'' @ mmm))))
            else bind_err (fmt_0d 2 seconds) (\<lambda>ss.
                 bind_err (fmt_0d 3 milliseconds) (\<lambda>mmm.
                 Inr (''+'' @ ss @ ''.'' @ mmm)))))"

section \<open>Session operations\<close>

definition get_obj :: "Session \<Rightarrow> string \<Rightarrow> Competitor option" where
  "get_obj s r = map_of (competitors s) r"

text \<open>A write to the object behind a reference.\<close>

definition update_obj :: "string \<Rightarrow> (Competitor \<Rightarrow> Competitor) \<Rightarrow> Session \<Rightarrow> Session" where
  "update_obj r f s =
     s\<lparr>competitors := map (\<lambda>(k, c). if k = r then (k, f c) else (k, c)) (competitors s)\<rparr>"

text \<open>
  \<open>get_competitor\<close> returns a reference to the object stored under \<open>racer_id\<close>, creating
  the object first when the key is new. In the model the reference is \<open>racer_id\<close>
  itself, so only the effect on the session is returned.
\<close>

definition get_competitor :: "string \<Rightarrow> Session \<Rightarrow> Session" where
  "get_competitor rid s =
     (if rid \<notin> fst ` set (competitors s)
      then s\<lparr>competitors := competitors s @ [(rid, new_Competitor rid)]\<rparr>
      else s)"

text \<open>\<open>get_position_number\<close> catches every exception of its \<open>int\<close> and returns 9999.\<close>

definition get_position_number :: "string \<Rightarrow> int" where
  "get_position_number pos =
     (if pos \<noteq> [] \<and> isdigit pos
      then (case py_int pos of Some v \<Rightarrow> v | None \<Rightarrow> 9999)
      else 9999)"

text \<open>A sort key component: an integer or \<open>float('inf')\<close>, which is above every integer.\<close>

datatype py_num = Finite int | PosInf

instantiation py_num :: linorder
begin

fun less_eq_py_num :: "py_num \<Rightarrow> py_num \<Rightarrow> bool" where
  "less_eq_py_num _ PosInf = True"
| "less_eq_py_num PosInf (Finite _) = False"
| "less_eq_py_num (Finite a) (Finite b) = (a \<le> b)"

definition less_py_num :: "py_num \<Rightarrow> py_num \<Rightarrow> bool" where
  "less_py_num x y = (x \<le> y \<and> \<not> y \<le> x)"

instance
proof
  fix x y z :: py_num
  show "(x < y) = (x \<le> y \<and> \<not> y \<le> x)"
    by (simp add: less_py_num_def)
  show "x \<le> x"
    by (cases x) simp_all
  show "x \<le> y \<Longrightarrow> y \<le> z \<Longrightarrow> x \<le> z"
    by (cases x; cases y; cases z) simp_all
  show "x \<le> y \<Longrightarrow> y \<le> x \<Longrightarrow> x = y"
    by (cases x; cases y) simp_all
  show "x \<le> y \<or> y \<le> x"
    by (cases x; cases y) auto
qed

end

definition qualifying_key :: "Competitor \<Rightarrow> py_num \<times> int" where
  "qualifying_key x =
     (if best_time_milliseconds x > 0 then Finite (best_time_milliseconds x) else PosInf,
      get_position_number (best_position x))"

text \<open>The RACE key raises where the \<open>int\<close> of the laps does: the lambda has no \<open>try\<close>.\<close>

definition race_key :: "Competitor \<Rightarrow> error + (int \<times> int \<times> py_num)" where
  "race_key x =
     bind_err (int_if_isdigit (laps x)) (\<lambda>laps_int.
       Inr (get_position_number (position x),
            - laps_int,
            if total_time_milliseconds x > 0 then Finite (total_time_milliseconds x)
            else PosInf))"

text \<open>
  \<open>list.sort(key=...)\<close> computes the key of every element first, in the order of the
  list, and raises what a key raises, leaving the list as it was; then it sorts the
  elements by their keys, stably, as \<open>sort_key\<close> does. The sorted list holds the objects
  of the map, that is, their references.
\<close>

fun keys_of ::
  "(Competitor \<Rightarrow> error + 'k) \<Rightarrow> (string \<times> Competitor) list \<Rightarrow> error + ('k \<times> string) list" where
  "keys_of key [] = Inr []"
| "keys_of key ((r, x) # rest) =
     bind_err (key x) (\<lambda>k. bind_err (keys_of key rest) (\<lambda>ks. Inr ((k, r) # ks)))"

definition sort_refs ::
  "(Competitor \<Rightarrow> error + 'k::linorder) \<Rightarrow> (string \<times> Competitor) list \<Rightarrow> error + string list" where
  "sort_refs key xs = bind_err (keys_of key xs) (\<lambda>ks. Inr (map snd (sort_key fst ks)))"

text \<open>
  \<open>sort_competitors\<close> assigns \<open>sorted_competitors\<close> after the sort: when the sort raises,
  the session is as before.
\<close>

definition sort_competitors :: "Session \<Rightarrow> error + Session" where
  "sort_competitors s =
     bind_err
       (if sort_mode s = QUALIFYING
        then sort_refs (\<lambda>x. Inr (qualifying_key x)) (competitors s)
        else sort_refs race_key (competitors s))
       (\<lambda>competitors_list. Inr (s\<lparr>sorted_competitors := competitors_list\<rparr>))"

definition reset_session :: "Session \<Rightarrow> Session" where
  "reset_session s =
     s\<lparr>classes := [], competitors := [], session_id := [], session_name := [],
       track_name := [], current_time := [], session_time := [], time_to_go := [],
       laps_to_go := [], flag_status := [], sorted_competitors := []\<rparr>"

text \<open>
  \<open>_calculate_time_difference\<close>: the two \<open>int\<close> of the laps and the formatting may
  raise.
\<close>

definition calculate_time_difference ::
  "Competitor \<Rightarrow> Competitor \<Rightarrow> int \<Rightarrow> error + string" where
  "calculate_time_difference slower_competitor faster_competitor slower_best_lap_ms =
     (if total_time_milliseconds faster_competitor = 0 then Inr []
      else
        bind_err (int_if_isdigit (laps slower_competitor)) (\<lambda>slower_laps.
        bind_err (int_if_isdigit (laps faster_competitor)) (\<lambda>faster_laps.
        (let lap_diff = faster_laps - slower_laps
         in if lap_diff > 0
               \<and> slower_best_lap_ms > 0
               \<and> total_time_milliseconds slower_competitor
                   - total_time_milliseconds faster_competitor > slower_best_lap_ms
            then bind_err (str_int lap_diff) (\<lambda>n.
                   Inr (if lap_diff = 1 then ''+'' @ n @ '' LAP'' else ''+'' @ n @ '' LAPS''))
            else format_time_difference
                   \<bar>total_time_milliseconds slower_competitor
                    - total_time_milliseconds faster_competitor\<bar>))))"

text \<open>
  One iteration of the loop of \<open>calculate_gaps_and_diffs\<close>, for an index \<open>i\<close> in
  \<open>range(1, len(sorted_competitors))\<close>. The result is the exception that leaves the
  iteration, if any, and the session at that moment: a gap that was assigned before the
  diff raised stays assigned. A reference of \<open>sorted_competitors\<close> always points at an
  object of the map, since only a reset removes objects and it clears the list too; so
  the last branch is never taken.
\<close>

definition gaps_step :: "nat \<Rightarrow> Session \<Rightarrow> error option \<times> Session" where
  "gaps_step i s =
     (let refs = sorted_competitors s in
      case (get_obj s (refs ! i), get_obj s (refs ! (i - 1)), get_obj s (refs ! 0)) of
        (Some current, Some previous, Some leader) \<Rightarrow>
          if total_time_milliseconds current = 0
          then (None, update_obj (refs ! i)
                        (\<lambda>c. c\<lparr>calculated_gap := [], calculated_diff := []\<rparr>) s)
          else
            (case calculate_time_difference current previous
                    (best_time_milliseconds current) of
               Inl e \<Rightarrow> (Some e, s)
             | Inr gap \<Rightarrow>
                 (let s = update_obj (refs ! i) (\<lambda>c. c\<lparr>calculated_gap := gap\<rparr>) s
                  in case calculate_time_difference current leader
                            (best_time_milliseconds current) of
                       Inl e \<Rightarrow> (Some e, s)
                     | Inr diff \<Rightarrow>
                         (None, update_obj (refs ! i) (\<lambda>c. c\<lparr>calculated_diff := diff\<rparr>) s)))
      | _ \<Rightarrow> (None, s))"

text \<open>The \<open>for\<close> loop: it stops at the first iteration that raises.\<close>

fun gaps_loop :: "nat list \<Rightarrow> Session \<Rightarrow> error option \<times> Session" where
  "gaps_loop [] s = (None, s)"
| "gaps_loop (i # js) s =
     (case gaps_step i s of
        (Some e, s') \<Rightarrow> (Some e, s')
      | (None, s') \<Rightarrow> gaps_loop js s')"

definition calculate_gaps_and_diffs :: "Session \<Rightarrow> error option \<times> Session" where
  "calculate_gaps_and_diffs s =
     (if sorted_competitors s = [] then (None, s)
      else
        (let s1 = update_obj (sorted_competitors s ! 0)
                    (\<lambda>c. c\<lparr>calculated_gap := [], calculated_diff := []\<rparr>) s
         in gaps_loop [1 ..< length (sorted_competitors s1)] s1))"

section \<open>The handler and its record handlers\<close>

text \<open>A row of \<open>competitors_df\<close> and the row of \<open>session_df\<close>; a data frame is its list of rows.\<close>

record competitor_row =
  col_Pos :: string
  col_Number :: string
  col_Name :: string
  col_Laps :: string
  col_Time :: string
  col_Best :: string
  col_Diff :: string
  col_Gap :: string
  col_RacerID :: string
  col_Transponder :: string
  col_Category :: string
  col_CategoryDesc :: string
  col_BestLap :: string
  col_LastLap :: string

record session_row =
  col_SessionID :: string
  col_SessionName :: string
  col_TrackName :: string
  col_TrackLength :: string
  col_CurrentTime :: string
  col_SessionTime :: string
  col_TimeToGo :: string
  col_LapsToGo :: string
  col_FlagStatus :: string
  col_SortMode :: string

record WebSocketApp =
  url :: string

record Thread =
  target :: WebSocketApp

text \<open>
  The fields of \<open>RaceTimingHandler\<close>, without the logger and the configuration.
  \<open>workers\<close> is not a field of the class: it lists the threads that \<open>connect\<close> has
  started, each running \<open>run_forever\<close> of its target.
\<close>

record RaceTimingHandler =
  session :: Session
  websocket :: "WebSocketApp option"
  running :: bool
  listen_thread :: "Thread option"
  competitors_df :: "competitor_row list"
  session_df :: "session_row list"
  workers :: "Thread list"

definition new_RaceTimingHandler :: RaceTimingHandler where
  "new_RaceTimingHandler =
     \<lparr>session = new_Session, websocket = None, running = False, listen_thread = None,
      competitors_df = [], session_df = [], workers = []\<rparr>"

definition handle_race_progress_data :: "string list \<Rightarrow> Session \<Rightarrow> Session" where
  "handle_race_progress_data elements s =
     (if length elements \<ge> 6
      then s\<lparr>laps_to_go := elements ! 1, time_to_go := elements ! 2,
             current_time := elements ! 3, session_time := elements ! 4,
             flag_status := strip (elements ! 5)\<rparr>
      else s)"

definition handle_driver_data :: "string list \<Rightarrow> Session \<Rightarrow> Session" where
  "handle_driver_data elements s =
     (if length elements \<ge> 8
      then update_obj (elements ! 1)
             (\<lambda>c. c\<lparr>number := elements ! 2, transponder := elements ! 3,
                     first_name := elements ! 4, last_name := elements ! 5,
                     nationality := elements ! 6, category := elements ! 7\<rparr>)
             (get_competitor (elements ! 1) s)
      else s)"

definition handle_race_session_data :: "string list \<Rightarrow> Session \<Rightarrow> Session" where
  "handle_race_session_data elements s =
     (if length elements \<ge> 3
      then s\<lparr>session_id := elements ! 1, session_name := elements ! 2\<rparr>
      else s)"

text \<open>\<open>d[k] = v\<close> on a dictionary: replace in place, or append a new key.\<close>

definition dict_set :: "'k \<Rightarrow> 'v \<Rightarrow> ('k \<times> 'v) list \<Rightarrow> ('k \<times> 'v) list" where
  "dict_set k v d =
     (if k \<in> fst ` set d then map (\<lambda>(k', v'). if k' = k then (k', v) else (k', v')) d
      else d @ [(k, v)])"

definition handle_race_class_data :: "string list \<Rightarrow> Session \<Rightarrow> Session" where
  "handle_race_class_data elements s =
     (if length elements \<ge> 3
      then (let race_class = \<lparr>class_id = elements ! 1, description = elements ! 2\<rparr>
            in s\<lparr>classes := dict_set (class_id race_class) race_class (classes s)\<rparr>)
      else s)"

definition handle_extended_driver_data :: "string list \<Rightarrow> Session \<Rightarrow> Session" where
  "handle_extended_driver_data elements s =
     (if length elements \<ge> 8
      then update_obj (elements ! 1)
             (\<lambda>c. c\<lparr>number := elements ! 2, category := elements ! 3,
                     first_name := elements ! 4, last_name := elements ! 5,
                     nationality := elements ! 6, additional_data := elements ! 7\<rparr>)
             (get_competitor (elements ! 1) s)
      else s)"

definition handle_track_data :: "string list \<Rightarrow> Session \<Rightarrow> Session" where
  "handle_track_data elements s =
     (if length elements \<ge> 3
      then (if elements ! 1 = ''TRACKNAME'' then s\<lparr>track_name := elements ! 2\<rparr>
            else if elements ! 1 = ''TRACKLENGTH'' then s\<lparr>track_length := elements ! 2\<rparr>
            else s)
      else s)"

definition handle_race_position_data :: "string list \<Rightarrow> Session \<Rightarrow> Session" where
  "handle_race_position_data elements s =
     (if length elements \<ge> 5
      then (let new_position = elements ! 1;
                new_laps = elements ! 3;
                new_total_time = elements ! 4
            in update_obj (elements ! 2)
                 (\<lambda>c. set_total_time new_total_time
                         ((if position c \<noteq> new_position \<or> laps c \<noteq> new_laps
                              \<or> total_time c \<noteq> new_total_time
                           then c\<lparr>data_updated := True\<rparr> else c)
                          \<lparr>position := new_position, laps := new_laps\<rparr>))
                 (get_competitor (elements ! 2) s))
      else s)"

definition handle_best_lap_time_data :: "string list \<Rightarrow> Session \<Rightarrow> Session" where
  "handle_best_lap_time_data elements s =
     (if length elements \<ge> 5
      then (let new_best_position = elements ! 1;
                new_best_lap = elements ! 3;
                new_best_time = elements ! 4
            in update_obj (elements ! 2)
                 (\<lambda>c. set_best_time new_best_time
                         ((if best_position c \<noteq> new_best_position \<or> best_lap c \<noteq> new_best_lap
                              \<or> best_time c \<noteq> new_best_time
                           then c\<lparr>data_updated := True\<rparr> else c)
                          \<lparr>best_position := new_best_position, best_lap := new_best_lap\<rparr>))
                 (get_competitor (elements ! 2) s))
      else s)"

definition handle_reset_data :: "Session \<Rightarrow> Session" where
  "handle_reset_data s = reset_session s"

definition handle_last_lap_time_data :: "string list \<Rightarrow> Session \<Rightarrow> Session" where
  "handle_last_lap_time_data elements s =
     (if length elements \<ge> 4
      then update_obj (elements ! 1)
             (\<lambda>c. (set_total_time (elements ! 3) (c\<lparr>last_lap_time := elements ! 2\<rparr>))
                   \<lparr>data_updated := True\<rparr>)
             (get_competitor (elements ! 1) s)
      else s)"

definition handle_sort_mode_data :: "string list \<Rightarrow> Session \<Rightarrow> Session" where
  "handle_sort_mode_data elements s =
     (if length elements \<ge> 2
      then (if elements ! 1 = ''qualifying'' then s\<lparr>sort_mode := QUALIFYING\<rparr>
            else s\<lparr>sort_mode := RACE\<rparr>)
      else s)"

text \<open>The \<open>match\<close> statement: an unknown command falls through every case.\<close>

definition dispatch :: "string \<Rightarrow> string list \<Rightarrow> Session \<Rightarrow> Session" where
  "dispatch command elements s =
     (if command = ''$F'' then handle_race_progress_data elements s
      else if command = ''$A'' then handle_driver_data elements s
      else if command = ''$B'' then handle_race_session_data elements s
      else if command = ''$C'' then handle_race_class_data elements s
      else if command = ''$COMP'' then handle_extended_driver_data elements s
      else if command = ''$E'' then handle_track_data elements s
      else if command = ''$G'' then handle_race_position_data elements s
      else if command = ''$H'' then handle_best_lap_time_data elements s
      else if command = ''$I'' then handle_reset_data s
      else if command = ''$J'' then handle_last_lap_time_data elements s
      else if command = ''$RMS'' then handle_sort_mode_data elements s
      else s)"

text \<open>The record parser: \<open>[element.replace('"', '') for element in line.split(',')]\<close>.\<close>

definition parse_elements :: "string \<Rightarrow> string list" where
  "parse_elements line = map (remove_char CHR 0x22) (split CHR '','' line)"

text \<open>
  The loop of \<open>process_data\<close> over the lines, threading the session and the local
  \<open>data_updated\<close> (here \<open>updated\<close>). No operation of the \<open>try\<close> body raises on strings (every index is
  guarded by a length test, and the time codec catches its own exceptions), so the
  \<open>except\<close> branch has no counterpart here.
\<close>

fun process_lines :: "string list \<Rightarrow> Session \<times> bool \<Rightarrow> Session \<times> bool" where
  "process_lines [] (s, updated) = (s, updated)"
| "process_lines (line # lines) (s, updated) =
     (if strip line = [] then process_lines lines (s, updated)
      else
        (case parse_elements line of
           [] \<Rightarrow> process_lines lines (s, updated)
         | command # _ \<Rightarrow>
             process_lines lines (dispatch command (parse_elements line) s, True)))"

definition make_competitor_row :: "nat \<Rightarrow> Competitor \<Rightarrow> competitor_row" where
  "make_competitor_row i competitor =
     (let pos = (if position competitor \<noteq> [] then position competitor else str_nat (i + 1));
          name = strip (first_name competitor @ '' '' @ last_name competitor);
          name = (if name = [] then ''Driver '' @ racer_id competitor else name)
      in \<lparr>col_Pos = pos,
          col_Number = number competitor,
          col_Name = name,
          col_Laps = laps competitor,
          col_Time = (if total_time competitor \<noteq> [] then total_time competitor else ''-''),
          col_Best = (if best_time competitor \<noteq> [] then best_time competitor else ''-''),
          col_Diff = (if calculated_diff competitor \<noteq> []
                      then calculated_diff competitor else ''-''),
          col_Gap = (if calculated_gap competitor \<noteq> []
                     then calculated_gap competitor else ''-''),
          col_RacerID = racer_id competitor,
          col_Transponder = transponder competitor,
          col_Category = category competitor,
          col_CategoryDesc = category_description competitor,
          col_BestLap = best_lap competitor,
          col_LastLap = last_lap_time competitor\<rparr>)"

definition sort_mode_name :: "SortMode \<Rightarrow> string" where
  "sort_mode_name m = (case m of RACE \<Rightarrow> ''RACE'' | QUALIFYING \<Rightarrow> ''QUALIFYING'')"

definition make_session_row :: "Session \<Rightarrow> session_row" where
  "make_session_row s =
     \<lparr>col_SessionID = session_id s, col_SessionName = session_name s,
      col_TrackName = track_name s, col_TrackLength = track_length s,
      col_CurrentTime = current_time s, col_SessionTime = session_time s,
      col_TimeToGo = time_to_go s, col_LapsToGo = laps_to_go s,
      col_FlagStatus = flag_status s, col_SortMode = sort_mode_name (sort_mode s)\<rparr>"

text \<open>
  \<open>handle_session_update\<close>: sort, compute gaps, then one row per sorted competitor, whose
  \<open>data_updated\<close> is cleared; the rows do not read that flag. Neither call is inside a
  \<open>try\<close>: an exception of the sort or of the gap computation leaves the method with the
  session as it is at that moment and with the two tables as they were.
\<close>

definition handle_session_update :: "RaceTimingHandler \<Rightarrow> error option \<times> RaceTimingHandler" where
  "handle_session_update h =
     (case sort_competitors (session h) of
        Inl e \<Rightarrow> (Some e, h)
      | Inr s \<Rightarrow>
          (case calculate_gaps_and_diffs s of
             (Some e, s) \<Rightarrow> (Some e, h\<lparr>session := s\<rparr>)
           | (None, s) \<Rightarrow>
               (let competitors_data =
                      concat (map (\<lambda>(i, r). case get_obj s r of
                                     Some competitor \<Rightarrow> [make_competitor_row i competitor]
                                   | None \<Rightarrow> [])
                                  (enumerate 0 (sorted_competitors s)));
                    s = fold (\<lambda>r. update_obj r (\<lambda>c. c\<lparr>data_updated := False\<rparr>))
                          (sorted_competitors s) s
                in (None, h\<lparr>session := s, competitors_df := competitors_data,
                             session_df := [make_session_row s]\<rparr>))))"

text \<open>
  \<open>process_data\<close> calls \<open>handle_session_update\<close> after its loop and outside its \<open>try\<close>:
  the result is the exception that reaches the caller, if any, and the handler then.
\<close>

definition process_data :: "string \<Rightarrow> RaceTimingHandler \<Rightarrow> error option \<times> RaceTimingHandler" where
  "process_data data h =
     (let lines = split CHR 0x0A (strip data);
          (s, updated) = process_lines lines (session h, False);
          h = h\<lparr>session := s\<rparr>
      in if updated then handle_session_update h else (None, h))"

text \<open>
  The handler after a sequence of frames, each given to \<open>process_data\<close> on the handler
  that the call before left, whether that call returned or raised.
\<close>

definition run_frames :: "string list \<Rightarrow> RaceTimingHandler \<Rightarrow> RaceTimingHandler" where
  "run_frames frames h = fold (\<lambda>data h. snd (process_data data h)) frames h"

text \<open>
  \<open>connect\<close> calls the library twice: the constructor of \<open>WebSocketApp\<close> and the start of
  the thread. What each call does, return or raise, is a parameter. The first component
  of the result is the exception that reaches the caller of \<open>connect\<close>, if any.
\<close>

datatype 'a outcome = Returns 'a | Raises string

definition connect ::
  "(string \<Rightarrow> WebSocketApp outcome) \<Rightarrow> (Thread \<Rightarrow> unit outcome) \<Rightarrow> string
     \<Rightarrow> RaceTimingHandler \<Rightarrow> string option \<times> RaceTimingHandler" where
  "connect new_app start ws_url h =
     (case new_app ws_url of
        Raises e \<Rightarrow> (None, h\<lparr>running := False\<rparr>)
      | Returns app \<Rightarrow>
          (let h = h\<lparr>websocket := Some app, running := True\<rparr>;
               thread = \<lparr>target = app\<rparr>;
               h = h\<lparr>listen_thread := Some thread\<rparr>
           in (case start thread of
                 Raises e \<Rightarrow> (None, h\<lparr>running := False\<rparr>)
               | Returns _ \<Rightarrow> (None, h\<lparr>workers := workers h @ [thread]\<rparr>))))"

section \<open>Auxiliary notions used in the statements\<close>

text \<open>\<open>sep.join(ws)\<close>, the inverse of \<open>split\<close>.\<close>

fun join :: "char \<Rightarrow> string list \<Rightarrow> string" where
  "join sep [] = []"
| "join sep [w] = w"
| "join sep (w # v # ws) = w @ sep # join sep (v # ws)"



text \<open>
  The specification's field rule (section 4.2): one leading and one trailing double
  quote are stripped, and only when both are present.
\<close>

definition spec_strip_quote_pair :: "string \<Rightarrow> string" where
  "spec_strip_quote_pair f =
     (if 2 \<le> length f \<and> hd f = CHR 0x22 \<and> last f = CHR 0x22 then butlast (tl f) else f)"

text \<open>A property of every object of the competitor map, given its key.\<close>

definition objs_sat :: "(string \<Rightarrow> Competitor \<Rightarrow> bool) \<Rightarrow> Session \<Rightarrow> bool" where
  "objs_sat P s = (\<forall>(k, c) \<in> set (competitors s). P k c)"

text \<open>
  What a property of an object needs to survive every write of a record handler: it
  holds of a new object, it depends on the identity and the time fields only, and the
  two time setters keep it.
\<close>

definition handler_stable :: "(string \<Rightarrow> Competitor \<Rightarrow> bool) \<Rightarrow> bool" where
  "handler_stable P =
     ((\<forall>k. P k (new_Competitor k))
      \<and> (\<forall>k c c'. P k c \<and> racer_id c' = racer_id c
            \<and> total_time c' = total_time c
            \<and> total_time_milliseconds c' = total_time_milliseconds c
            \<and> best_time c' = best_time c
            \<and> best_time_milliseconds c' = best_time_milliseconds c \<longrightarrow> P k c')
      \<and> (\<forall>k c t. P k c \<longrightarrow> P k (set_total_time t c))
      \<and> (\<forall>k c t. P k c \<longrightarrow> P k (set_best_time t c)))"

definition racer_id_inv :: "Session \<Rightarrow> bool" where
  "racer_id_inv s = (\<forall>(k, c) \<in> set (competitors s). racer_id c = k)"

text \<open>
  The millisecond fields are the time codec's reading of the time strings; so they are
  zero where the string is empty or the sentinel.
\<close>

definition times_consistent :: "Competitor \<Rightarrow> bool" where
  "times_consistent c =
     (total_time_milliseconds c = convert_time_to_milliseconds (total_time c)
      \<and> best_time_milliseconds c = convert_time_to_milliseconds (best_time c)
      \<and> (total_time c = [] \<or> total_time c = sentinel \<longrightarrow> total_time_milliseconds c = 0)
      \<and> (best_time c = [] \<or> best_time c = sentinel \<longrightarrow> best_time_milliseconds c = 0))"

definition time_inv :: "Session \<Rightarrow> bool" where
  "time_inv s = (\<forall>(k, c) \<in> set (competitors s). times_consistent c)"

text \<open>The specification's invariant on the time fields (section 3), both ways.\<close>

definition spec_time_iff :: "Competitor \<Rightarrow> bool" where
  "spec_time_iff c =
     (((total_time_milliseconds c = 0) = (total_time c = [] \<or> total_time c = sentinel))
      \<and> ((best_time_milliseconds c = 0) = (best_time c = [] \<or> best_time c = sentinel)))"

text \<open>
  The time strings of the round-trip law (section 8): two digits for the hours, the
  minutes and the seconds, three for the milliseconds; and the law's normalization,
  which puts back the leading components that the formatted output leaves out.
\<close>

definition spec_time_string :: "nat \<Rightarrow> nat \<Rightarrow> nat \<Rightarrow> nat \<Rightarrow> string" where
  "spec_time_string h m s ms =
     [digit_char (h div 10), digit_char (h mod 10), CHR '':'',
      digit_char (m div 10), digit_char (m mod 10), CHR '':'',
      digit_char (s div 10), digit_char (s mod 10), CHR ''.'',
      digit_char (ms div 100), digit_char (ms div 10 mod 10), digit_char (ms mod 10)]"

definition spec_normalize :: "string \<Rightarrow> string" where
  "spec_normalize out =
     (case out of
        [] \<Rightarrow> []
      | c # rest \<Rightarrow>
          if length rest = 6 then c # ''00:00:'' @ rest
          else if length rest = 9 then c # ''00:'' @ rest
          else out)"

text \<open>The objects behind the references of \<open>sorted_competitors\<close>, in that order.\<close>

definition sorted_objs :: "Session \<Rightarrow> Competitor list" where
  "sorted_objs s = List.map_filter (get_obj s) (sorted_competitors s)"

text \<open>
  The RACE key in the specification's words (section 4.4): the time component is
  infinite when \<open>total_time_ms\<close> is zero and the value itself otherwise.
\<close>

definition spec_all_digits :: "string \<Rightarrow> bool" where
  "spec_all_digits s = (s \<noteq> [] \<and> list_all is_decimal s)"

definition spec_race_key :: "Competitor \<Rightarrow> int \<times> int \<times> py_num" where
  "spec_race_key x =
     (if spec_all_digits (position x) then int (digits_value (position x)) else 9999,
      - (if spec_all_digits (laps x) then int (digits_value (laps x)) else 0),
      if total_time_milliseconds x = 0 then PosInf else Finite (total_time_milliseconds x))"

text \<open>The frames of the end-to-end scenarios 2 and 4 (section 8), and the states after them.\<close>

definition scenario_two_car :: string where
  "scenario_two_car =
     ''$A,1,11,T1,Ayrton,Senna,BR,A\<newline>$A,2,22,T2,Alain,Prost,FR,A\<newline>$G,1,1,10,00:20:00.000\<newline>$G,2,2,10,00:20:02.500''"

definition scenario_qualifying :: string where
  "scenario_qualifying = ''$H,2,2,8,00:01:28.100\<newline>$H,1,1,9,00:01:29.500\<newline>$RMS,qualifying''"

definition after_two_car :: RaceTimingHandler where
  "after_two_car = snd (process_data scenario_two_car new_RaceTimingHandler)"

definition after_qualifying :: RaceTimingHandler where
  "after_qualifying = snd (process_data scenario_qualifying after_two_car)"

text \<open>
  \<open>diff_against\<close> is the call that \<open>calculate_gaps_and_diffs\<close> makes for a competitor with
  a time: the slower competitor's best lap is the third argument.
\<close>

definition diff_against :: "Competitor \<Rightarrow> Competitor \<Rightarrow> error + string" where
  "diff_against slower faster =
     calculate_time_difference slower faster (best_time_milliseconds slower)"

text \<open>
  Two frames, the second with a laps field that \<open>str.isdigit\<close> accepts and \<open>int\<close> does
  not (the superscript two, code point \<open>B2\<close>), and the handler after the first.
\<close>

definition frame_two_times :: string where
  "frame_two_times = ''$G,1,a,10,00:20:00.000\<newline>$G,2,b,10,00:20:02.500''"

definition frame_bad_laps :: string where
  "frame_bad_laps = ''$G,2,b,10,00:20:05.000\<newline>$G,3,c,'' @ [CHR 0xB2] @ '',00:01:00.000''"

definition after_two_times :: RaceTimingHandler where
  "after_two_times = snd (process_data frame_two_times new_RaceTimingHandler)"

definition after_bad_laps :: RaceTimingHandler where
  "after_bad_laps = snd (process_data frame_bad_laps after_two_times)"

section \<open>Properties\<close>

subsection \<open>Splitting\<close>

lemma split_not_Nil: "split sep s \<noteq> []"
  by (induction s) (auto split: list.splits)


lemma join_split: "join sep (split sep s) = s"
proof (induction s)
  case Nil
  show ?case by simp
next
  case (Cons c cs)
  obtain w ws where sp: "split sep cs = w # ws"
    using split_not_Nil [of sep cs] by (cases "split sep cs") auto
  show ?case
  proof (cases "c = sep")
    case True
    with Cons sp show ?thesis by simp
  next
    case False
    with Cons sp show ?thesis by (cases ws) auto
  qed
qed

lemma split_no_sep: "w \<in> set (split sep s) \<Longrightarrow> sep \<notin> set w"
  by (induction s arbitrary: w) (auto split: list.splits if_splits)

subsection \<open>Reset\<close>

text \<open>
  C1. A \<open>$I\<close> record clears both maps and the session scalars and keeps the sort mode,
  but \<open>reset_session\<close> has no assignment to \<open>track_length\<close>: after a frame that sets the
  track name, the track length, the sort mode, a class and a competitor and then
  resets, the track name is empty again, the mode is still QUALIFYING, both maps are
  empty, and the track length is still the one that was set.
\<close>

theorem reset_session_keeps_track_length:
  "(let s = session (snd (process_data
              ''$E,TRACKNAME,Interlagos\<newline>$E,TRACKLENGTH,4309\<newline>$RMS,qualifying\<newline>$C,1,GT\<newline>$G,1,7,10,00:20:00.000\<newline>$I''
              new_RaceTimingHandler))
    in track_name s = [] \<and> sort_mode s = QUALIFYING \<and> classes s = []
       \<and> competitors s = [] \<and> track_length s = ''4309'')"
  by code_simp

subsection \<open>The record parser\<close>

text \<open>
  C4, as stated, fails: the parser removes every double quote of a field, also a quote
  on one side only and a quote inside the field.
\<close>

theorem parse_elements_quote_counterexample:
  \<open>parse_elements ''$B,"S1,a"b'' = [''$B'', ''S1'', ''ab'']
   \<and> parse_elements ''$B,"S1,a"b''
       \<noteq> map spec_strip_quote_pair (split CHR '','' ''$B,"S1,a"b'')\<close>
  by code_simp

text \<open>
  C4, amended. The parser splits the line on commas (the fields hold no comma and join
  back to the line) and removes every double quote from each field, so that no element
  holds a double quote.
\<close>

theorem parse_elements_removes_every_quote:
  "join CHR '','' (split CHR '','' line) = line
   \<and> (\<forall>f \<in> set (split CHR '','' line). CHR '','' \<notin> set f)
   \<and> parse_elements line = map (filter (\<lambda>c. c \<noteq> CHR 0x22)) (split CHR '','' line)
   \<and> (\<forall>e \<in> set (parse_elements line). CHR 0x22 \<notin> set e)"
  by (auto simp: join_split parse_elements_def remove_char_def dest: split_no_sep)

theorem parse_elements_removes_every_quote_witness:
  \<open>''S1'' \<in> set (parse_elements ''$B,"S1,a"b'') \<and> CHR 0x22 \<notin> set ''S1''
   \<and> join CHR '','' (split CHR '','' ''$B,"S1,a"b'') = ''$B,"S1,a"b''\<close>
proof -
  have "''S1'' \<in> set (parse_elements [CHR ''$'', CHR ''B'', CHR '','', CHR 0x22, CHR ''S'',
          CHR ''1'', CHR '','', CHR ''a'', CHR 0x22, CHR ''b''])"
    by code_simp
  then show ?thesis
    using parse_elements_removes_every_quote [of "[CHR ''$'', CHR ''B'', CHR '','', CHR 0x22,
          CHR ''S'', CHR ''1'', CHR '','', CHR ''a'', CHR 0x22, CHR ''b'']"]
    by simp
qed

subsection \<open>Batch completion\<close>





subsection \<open>Properties of the objects kept by every handler\<close>

lemma objs_sat_update_obj:
  "objs_sat P s \<Longrightarrow> (\<And>c. P r c \<Longrightarrow> P r (f c)) \<Longrightarrow> objs_sat P (update_obj r f s)"
  by (auto simp: objs_sat_def update_obj_def split: if_splits)

lemma objs_sat_get_competitor:
  "objs_sat P s \<Longrightarrow> P r (new_Competitor r) \<Longrightarrow> objs_sat P (get_competitor r s)"
  by (auto simp: objs_sat_def get_competitor_def)

lemma objs_sat_upsert:
  "objs_sat P s \<Longrightarrow> P r (new_Competitor r) \<Longrightarrow> (\<And>c. P r c \<Longrightarrow> P r (f c))
   \<Longrightarrow> objs_sat P (update_obj r f (get_competitor r s))"
  by (simp add: objs_sat_update_obj objs_sat_get_competitor)

lemma convert_empty: "convert_time_to_milliseconds [] = 0"
  by (simp add: convert_time_to_milliseconds_def convert_body_def)

lemma convert_sentinel: "convert_time_to_milliseconds sentinel = 0"
  by (simp add: convert_time_to_milliseconds_def convert_body_def)

lemma stable_new: "handler_stable P \<Longrightarrow> P k (new_Competitor k)"
  by (simp add: handler_stable_def)

lemma stable_frame:
  "handler_stable P \<Longrightarrow> P k c \<Longrightarrow> racer_id c' = racer_id c \<Longrightarrow> total_time c' = total_time c
   \<Longrightarrow> total_time_milliseconds c' = total_time_milliseconds c \<Longrightarrow> best_time c' = best_time c
   \<Longrightarrow> best_time_milliseconds c' = best_time_milliseconds c \<Longrightarrow> P k c'"
  unfolding handler_stable_def by blast

lemma stable_total: "handler_stable P \<Longrightarrow> P k c \<Longrightarrow> P k (set_total_time t c)"
  by (simp add: handler_stable_def)

lemma stable_best: "handler_stable P \<Longrightarrow> P k c \<Longrightarrow> P k (set_best_time t c)"
  by (simp add: handler_stable_def)

lemma stable_racer_id: "handler_stable (\<lambda>k c. racer_id c = k)"
  by (simp add: handler_stable_def new_Competitor_def set_total_time_def set_best_time_def)

lemma stable_times: "handler_stable (\<lambda>k c. times_consistent c)"
  by (simp add: handler_stable_def new_Competitor_def set_total_time_def set_best_time_def
      times_consistent_def convert_empty convert_sentinel)

lemma sat_driver:
  assumes st: "handler_stable P" and s: "objs_sat P s"
  shows "objs_sat P (handle_driver_data elements s)"
proof -
  have "P r (c\<lparr>number := a, transponder := b, first_name := d, last_name := e,
               nationality := f, category := g\<rparr>)" if "P r c" for r c a b d e f g
    using st that by (rule stable_frame) simp_all
  with st s show ?thesis
    by (simp add: handle_driver_data_def objs_sat_upsert stable_new)
qed

lemma sat_extended_driver:
  assumes st: "handler_stable P" and s: "objs_sat P s"
  shows "objs_sat P (handle_extended_driver_data elements s)"
proof -
  have "P r (c\<lparr>number := a, category := b, first_name := d, last_name := e,
               nationality := f, additional_data := g\<rparr>)" if "P r c" for r c a b d e f g
    using st that by (rule stable_frame) simp_all
  with st s show ?thesis
    by (simp add: handle_extended_driver_data_def objs_sat_upsert stable_new)
qed

lemma sat_position:
  assumes st: "handler_stable P" and s: "objs_sat P s"
  shows "objs_sat P (handle_race_position_data elements s)"
proof -
  have "P r (set_total_time t ((if b then c\<lparr>data_updated := True\<rparr> else c)
               \<lparr>position := p, laps := l\<rparr>))" if "P r c" for r c t b p l
  proof -
    have "P r ((if b then c\<lparr>data_updated := True\<rparr> else c)\<lparr>position := p, laps := l\<rparr>)"
      using st that by (rule stable_frame) simp_all
    with st show ?thesis by (rule stable_total)
  qed
  with st s show ?thesis
    by (simp add: handle_race_position_data_def Let_def objs_sat_upsert stable_new)
qed

lemma sat_best_lap:
  assumes st: "handler_stable P" and s: "objs_sat P s"
  shows "objs_sat P (handle_best_lap_time_data elements s)"
proof -
  have "P r (set_best_time t ((if b then c\<lparr>data_updated := True\<rparr> else c)
               \<lparr>best_position := p, best_lap := l\<rparr>))" if "P r c" for r c t b p l
  proof -
    have "P r ((if b then c\<lparr>data_updated := True\<rparr> else c)
                \<lparr>best_position := p, best_lap := l\<rparr>)"
      using st that by (rule stable_frame) simp_all
    with st show ?thesis by (rule stable_best)
  qed
  with st s show ?thesis
    by (simp add: handle_best_lap_time_data_def Let_def objs_sat_upsert stable_new)
qed

lemma sat_last_lap:
  assumes st: "handler_stable P" and s: "objs_sat P s"
  shows "objs_sat P (handle_last_lap_time_data elements s)"
proof -
  have "P r ((set_total_time t (c\<lparr>last_lap_time := l\<rparr>))\<lparr>data_updated := True\<rparr>)"
    if "P r c" for r c t l
  proof -
    have "P r (c\<lparr>last_lap_time := l\<rparr>)"
      using st that by (rule stable_frame) simp_all
    with st have "P r (set_total_time t (c\<lparr>last_lap_time := l\<rparr>))"
      by (rule stable_total)
    with st show ?thesis
      by (rule stable_frame) simp_all
  qed
  with st s show ?thesis
    by (simp add: handle_last_lap_time_data_def objs_sat_upsert stable_new)
qed

lemma sat_dispatch:
  assumes st: "handler_stable P" and s: "objs_sat P s"
  shows "objs_sat P (dispatch command elements s)"
proof -
  have other: "objs_sat P (handle_race_progress_data elements s)"
    "objs_sat P (handle_race_session_data elements s)"
    "objs_sat P (handle_race_class_data elements s)"
    "objs_sat P (handle_track_data elements s)"
    "objs_sat P (handle_reset_data s)"
    "objs_sat P (handle_sort_mode_data elements s)"
    using s
    by (simp_all add: objs_sat_def handle_race_progress_data_def handle_race_session_data_def
      handle_race_class_data_def handle_track_data_def handle_reset_data_def reset_session_def
      handle_sort_mode_data_def Let_def)
  show ?thesis
    using st s other
    by (simp add: dispatch_def sat_driver sat_extended_driver sat_position sat_best_lap
        sat_last_lap)
qed

lemma sat_process_lines:
  assumes st: "handler_stable P"
  shows "objs_sat P s \<Longrightarrow> objs_sat P (fst (process_lines lines (s, u)))"
proof (induction lines arbitrary: s u)
  case Nil
  then show ?case by simp
next
  case (Cons line lines)
  then show ?case
    by (auto simp: sat_dispatch [OF st] split: list.splits)
qed

lemma bind_err_Inr:
  "bind_err r f = Inr y \<Longrightarrow> \<exists>x. r = Inr x \<and> f x = Inr y"
  by (cases r) (simp_all add: bind_err_def)

lemma competitors_sort:
  "sort_competitors s = Inr s' \<Longrightarrow> competitors s' = competitors s"
  by (auto simp: sort_competitors_def dest!: bind_err_Inr)

lemma sorted_update_obj [simp]: "sorted_competitors (update_obj r f s) = sorted_competitors s"
  by (simp add: update_obj_def)

lemma sat_gaps_step:
  assumes st: "handler_stable P" and s: "objs_sat P s"
  shows "objs_sat P (snd (gaps_step i s))"
proof -
  have w: "P r (c\<lparr>calculated_gap := g, calculated_diff := d\<rparr>)"
    "P r (c\<lparr>calculated_gap := g\<rparr>)" "P r (c\<lparr>calculated_diff := d\<rparr>)" if "P r c" for r c g d
    using st that by (rule stable_frame; simp)+
  have u: "objs_sat P (update_obj r (\<lambda>c. c\<lparr>calculated_gap := g, calculated_diff := d\<rparr>) t)"
    "objs_sat P (update_obj r (\<lambda>c. c\<lparr>calculated_gap := g\<rparr>) t)"
    "objs_sat P (update_obj r (\<lambda>c. c\<lparr>calculated_diff := d\<rparr>) t)" if "objs_sat P t" for r g d t
    using that w by (simp_all add: objs_sat_update_obj)
  show ?thesis
    using s by (simp add: gaps_step_def Let_def u split: option.splits sum.splits)
qed

lemma sat_gaps_loop:
  assumes st: "handler_stable P"
  shows "objs_sat P s \<Longrightarrow> objs_sat P (snd (gaps_loop js s))"
proof (induction js arbitrary: s)
  case Nil
  then show ?case by simp
next
  case (Cons i js)
  from Cons.prems have "objs_sat P (snd (gaps_step i s))"
    by (rule sat_gaps_step [OF st])
  with Cons.IH show ?case
    by (cases "gaps_step i s") (auto split: option.splits)
qed

lemma sat_fold:
  assumes "\<And>x s. objs_sat P s \<Longrightarrow> objs_sat P (f x s)"
  shows "objs_sat P s \<Longrightarrow> objs_sat P (fold f xs s)"
  by (induction xs arbitrary: s) (simp_all add: assms)

lemma sat_gaps:
  assumes st: "handler_stable P" and s: "objs_sat P s"
  shows "objs_sat P (snd (calculate_gaps_and_diffs s))"
proof -
  have "P r (c\<lparr>calculated_gap := g, calculated_diff := d\<rparr>)" if "P r c" for r c g d
    using st that by (rule stable_frame) simp_all
  with s have "objs_sat P (update_obj r (\<lambda>c. c\<lparr>calculated_gap := [], calculated_diff := []\<rparr>) s)"
    for r by (simp add: objs_sat_update_obj)
  with s show ?thesis
    by (simp add: calculate_gaps_and_diffs_def Let_def sat_gaps_loop [OF st])
qed

lemma sat_session_update:
  assumes st: "handler_stable P" and s: "objs_sat P (session h)"
  shows "objs_sat P (session (snd (handle_session_update h)))"
proof (cases "sort_competitors (session h)")
  case (Inl e)
  with s show ?thesis
    by (simp add: handle_session_update_def)
next
  case (Inr s1)
  have "P r (c\<lparr>data_updated := False\<rparr>)" if "P r c" for r c
    using st that by (rule stable_frame) simp_all
  then have clr: "objs_sat P (update_obj r (\<lambda>c. c\<lparr>data_updated := False\<rparr>) s')"
    if "objs_sat P s'" for r s'
    using that by (simp add: objs_sat_update_obj)
  have "objs_sat P s1"
    using s competitors_sort [OF Inr] by (simp add: objs_sat_def)
  then have g: "objs_sat P (snd (calculate_gaps_and_diffs s1))"
    by (rule sat_gaps [OF st])
  show ?thesis
    using g
    by (cases "calculate_gaps_and_diffs s1")
      (auto simp: handle_session_update_def Inr Let_def sat_fold clr split: option.splits)
qed

lemma sat_process_data:
  assumes st: "handler_stable P" and s: "objs_sat P (session h)"
  shows "objs_sat P (session (snd (process_data data h)))"
proof -
  have "objs_sat P (fst (process_lines (split CHR 0x0A (strip data)) (session h, False)))"
    using s by (rule sat_process_lines [OF st])
  then show ?thesis
    by (auto simp: process_data_def Let_def sat_session_update [OF st] split: prod.splits)
qed

lemma sat_frames:
  assumes st: "handler_stable P"
  shows "objs_sat P (session h) \<Longrightarrow> objs_sat P (session (run_frames frames h))"
  unfolding run_frames_def
  by (induction frames arbitrary: h) (simp_all add: sat_process_data [OF st])

lemma sat_new: "objs_sat P (session new_RaceTimingHandler)"
  by (simp add: objs_sat_def new_RaceTimingHandler_def new_Session_def)

subsection \<open>Identity of the stored competitors\<close>

text \<open>
  C10. Every key of the competitor map stores a competitor whose \<open>racer_id\<close> is that
  key: in every state reached from a new handler by any sequence of frames, and across
  \<open>get_competitor\<close>, every record handler behind the dispatcher and \<open>process_data\<close>
  from any session with the property.
\<close>

theorem racer_id_equals_key:
  "racer_id_inv (session (run_frames frames new_RaceTimingHandler))
   \<and> (racer_id_inv s \<longrightarrow> racer_id_inv (get_competitor k s))
   \<and> (racer_id_inv s \<longrightarrow> racer_id_inv (dispatch command elements s))
   \<and> (racer_id_inv (session h) \<longrightarrow> racer_id_inv (session (snd (process_data data h))))"
proof -
  have eq: "racer_id_inv = objs_sat (\<lambda>k c. racer_id c = k)"
    by (simp add: fun_eq_iff racer_id_inv_def objs_sat_def)
  have "racer_id_inv s \<Longrightarrow> racer_id_inv (get_competitor k s)"
    unfolding eq by (rule objs_sat_get_competitor) (simp_all add: new_Competitor_def)
  then show ?thesis
    unfolding eq
    using sat_frames [OF stable_racer_id sat_new] sat_dispatch [OF stable_racer_id]
      sat_process_data [OF stable_racer_id]
    by (simp add: eq)
qed

theorem racer_id_equals_key_witness:
  "map (\<lambda>(k, c). (k, racer_id c))
     (competitors (session (run_frames
        [''$A,7,11,T1,Ayrton,Senna,BR,A\<newline>$G,1,7,10,00:20:00.000''] new_RaceTimingHandler)))
     = [(''7'', ''7'')]
   \<and> racer_id_inv (session (run_frames
        [''$A,7,11,T1,Ayrton,Senna,BR,A\<newline>$G,1,7,10,00:20:00.000''] new_RaceTimingHandler))
   \<and> racer_id_inv (get_competitor ''8'' (session (run_frames
        [''$A,7,11,T1,Ayrton,Senna,BR,A\<newline>$G,1,7,10,00:20:00.000''] new_RaceTimingHandler)))
   \<and> racer_id_inv (dispatch ''$H'' [''$H'', ''1'', ''9'', ''4'', ''00:01:30.000'']
        (session (run_frames
        [''$A,7,11,T1,Ayrton,Senna,BR,A\<newline>$G,1,7,10,00:20:00.000''] new_RaceTimingHandler)))
   \<and> racer_id_inv (session (snd (process_data ''$J,9,00:01:31.000,00:21:31.000''
        (run_frames
        [''$A,7,11,T1,Ayrton,Senna,BR,A\<newline>$G,1,7,10,00:20:00.000''] new_RaceTimingHandler))))"
proof -
  have "map (\<lambda>(k, c). (k, racer_id c))
     (competitors (session (run_frames
        [''$A,7,11,T1,Ayrton,Senna,BR,A\<newline>$G,1,7,10,00:20:00.000''] new_RaceTimingHandler)))
     = [(''7'', ''7'')]"
    by code_simp
  then show ?thesis
    using racer_id_equals_key [of
        "[''$A,7,11,T1,Ayrton,Senna,BR,A\<newline>$G,1,7,10,00:20:00.000'']"
        "session (run_frames
           [''$A,7,11,T1,Ayrton,Senna,BR,A\<newline>$G,1,7,10,00:20:00.000''] new_RaceTimingHandler)"
        "''8''" "''$H''" "[''$H'', ''1'', ''9'', ''4'', ''00:01:30.000'']"
        "run_frames
           [''$A,7,11,T1,Ayrton,Senna,BR,A\<newline>$G,1,7,10,00:20:00.000''] new_RaceTimingHandler"
        "''$J,9,00:01:31.000,00:21:31.000''"]
    by blast
qed

subsection \<open>The derived millisecond fields\<close>

text \<open>
  C2, as stated, fails: a total time that is neither empty nor the sentinel can have a
  millisecond count of zero, because the codec reads a zero time as zero and returns
  zero for a string it cannot parse.
\<close>

theorem time_iff_counterexample:
  "map (\<lambda>(k, c). (k, total_time c, total_time_milliseconds c))
     (competitors (session (snd (process_data ''$G,1,7,10,00:00:00.000\<newline>$G,2,8,10,abc''
        new_RaceTimingHandler))))
     = [(''7'', ''00:00:00.000'', 0), (''8'', ''abc'', 0)]
   \<and> \<not> list_all (\<lambda>(k, c). spec_time_iff c)
       (competitors (session (snd (process_data ''$G,1,7,10,00:00:00.000\<newline>$G,2,8,10,abc''
          new_RaceTimingHandler))))"
  by code_simp

text \<open>
  C2, amended. For every competitor of the map, after any sequence of frames and across
  every record handler, \<open>total_time_milliseconds\<close> is the codec's reading of
  \<open>total_time\<close>, hence zero when \<open>total_time\<close> is empty or the sentinel; the same holds
  of \<open>best_time_milliseconds\<close> and \<open>best_time\<close>.
\<close>

theorem times_consistent_invariant:
  "time_inv (session (run_frames frames new_RaceTimingHandler))
   \<and> (time_inv s \<longrightarrow> time_inv (dispatch command elements s))
   \<and> (time_inv (session h) \<longrightarrow> time_inv (session (snd (process_data data h))))"
proof -
  have eq: "time_inv = objs_sat (\<lambda>k c. times_consistent c)"
    by (simp add: fun_eq_iff time_inv_def objs_sat_def)
  show ?thesis
    unfolding eq
    using sat_frames [OF stable_times sat_new] sat_dispatch [OF stable_times]
      sat_process_data [OF stable_times]
    by simp
qed

theorem times_consistent_invariant_witness:
  "map (\<lambda>(k, c). (total_time c, total_time_milliseconds c, best_time c, best_time_milliseconds c))
     (competitors (session (run_frames
        [''$G,1,7,10,00:20:00.000\<newline>$H,1,7,4,00:59:59.999''] new_RaceTimingHandler)))
     = [(''00:20:00.000'', 1200000, ''00:59:59.999'', 0)]
   \<and> time_inv (session (run_frames
        [''$G,1,7,10,00:20:00.000\<newline>$H,1,7,4,00:59:59.999''] new_RaceTimingHandler))
   \<and> time_inv (dispatch ''$J'' [''$J'', ''7'', ''00:01:31.000'', ''00:21:31.000'']
        (session (run_frames
        [''$G,1,7,10,00:20:00.000\<newline>$H,1,7,4,00:59:59.999''] new_RaceTimingHandler)))
   \<and> time_inv (session (snd (process_data ''$H,1,7,5,00:01:29.000''
        (run_frames
        [''$G,1,7,10,00:20:00.000\<newline>$H,1,7,4,00:59:59.999''] new_RaceTimingHandler))))"
proof -
  have "map (\<lambda>(k, c). (total_time c, total_time_milliseconds c, best_time c, best_time_milliseconds c))
     (competitors (session (run_frames
        [''$G,1,7,10,00:20:00.000\<newline>$H,1,7,4,00:59:59.999''] new_RaceTimingHandler)))
     = [(''00:20:00.000'', 1200000, ''00:59:59.999'', 0)]"
    by code_simp
  then show ?thesis
    using times_consistent_invariant [of
        "[''$G,1,7,10,00:20:00.000\<newline>$H,1,7,4,00:59:59.999'']"
        "session (run_frames
           [''$G,1,7,10,00:20:00.000\<newline>$H,1,7,4,00:59:59.999''] new_RaceTimingHandler)"
        "''$J''" "[''$J'', ''7'', ''00:01:31.000'', ''00:21:31.000'']"
        "run_frames
           [''$G,1,7,10,00:20:00.000\<newline>$H,1,7,4,00:59:59.999''] new_RaceTimingHandler"
        "''$H,1,7,5,00:01:29.000''"]
    by blast
qed

subsection \<open>Time codec\<close>

lemma of_char_digit: "n < 10 \<Longrightarrow> (of_char (digit_char n) :: nat) = 48 + n"
  by (simp add: digit_char_def)

lemma digit_neq:
  assumes "n < 10" "(of_char c :: nat) < 48 \<or> 57 < (of_char c :: nat)"
  shows "digit_char n \<noteq> c"
proof
  assume "digit_char n = c"
  then have "(of_char (digit_char n) :: nat) = of_char c" by simp
  with assms show False by (simp add: of_char_digit)
qed

lemma digit_props:
  assumes "n < 10"
  shows "is_decimal (digit_char n)" "\<not> int_space (digit_char n)" "digit_val (digit_char n) = n"
    "digit_char n \<noteq> CHR ''.''" "digit_char n \<noteq> CHR '':''" "digit_char n \<noteq> CHR ''-''"
    "digit_char n \<noteq> CHR ''+''" "digit_char n \<noteq> CHR ''_''"
  using assms
  by (simp_all add: is_decimal_def int_space_def digit_val_def of_char_digit Let_def digit_neq)

lemma strip_digit_first_last:
  assumes "\<not> P a" "\<not> P z"
  shows "rev (dropWhile P (rev (dropWhile P (a # xs @ [z])))) = a # xs @ [z]"
  using assms by simp

lemma py_int2:
  assumes "a < 10" "b < 10"
  shows "py_int [digit_char a, digit_char b] = Some (int (10 * a + b))"
proof -
  have "rev (dropWhile int_space (rev (dropWhile int_space [digit_char a, digit_char b])))
        = [digit_char a, digit_char b]"
    using strip_digit_first_last [of int_space "digit_char a" "digit_char b" "[]"] assms
    by (simp add: digit_props)
  then show ?thesis
    using assms
    by (simp add: py_int_def digit_props Let_def remove_char_def digits_value_def
        int_max_str_digits_def)
qed

lemma py_int3:
  assumes "a < 10" "b < 10" "c < 10"
  shows "py_int [digit_char a, digit_char b, digit_char c] = Some (int (100 * a + 10 * b + c))"
proof -
  have "rev (dropWhile int_space (rev (dropWhile int_space
            [digit_char a, digit_char b, digit_char c])))
        = [digit_char a, digit_char b, digit_char c]"
    using strip_digit_first_last [of int_space "digit_char a" "digit_char c" "[digit_char b]"] assms
    by (simp add: digit_props)
  then show ?thesis
    using assms
    by (simp add: py_int_def digit_props Let_def remove_char_def digits_value_def
        int_max_str_digits_def)
qed

lemma split_clock:
  assumes "a < 10" "b < 10" "c < 10" "d < 10" "e < 10" "f < 10"
  shows "split CHR '':'' [digit_char a, digit_char b, CHR '':'', digit_char c, digit_char d,
           CHR '':'', digit_char e, digit_char f]
         = [[digit_char a, digit_char b], [digit_char c, digit_char d],
            [digit_char e, digit_char f]]"
  using assms by (simp add: digit_props)

lemma split_dot:
  assumes "a < 10" "b < 10" "c < 10" "d < 10" "e < 10" "f < 10" "g < 10" "i < 10" "j < 10"
  shows "split CHR ''.'' [digit_char a, digit_char b, CHR '':'', digit_char c, digit_char d,
           CHR '':'', digit_char e, digit_char f, CHR ''.'', digit_char g, digit_char i,
           digit_char j]
         = [[digit_char a, digit_char b, CHR '':'', digit_char c, digit_char d,
             CHR '':'', digit_char e, digit_char f], [digit_char g, digit_char i, digit_char j]]"
  using assms by (simp add: digit_props)

lemma convert_body_digits:
  assumes "a < 10" "b < 10" "c < 10" "d < 10" "e < 10" "f < 10" "g < 10" "i < 10" "j < 10"
    and "[digit_char a, digit_char b, CHR '':'', digit_char c, digit_char d,
           CHR '':'', digit_char e, digit_char f, CHR ''.'', digit_char g, digit_char i,
           digit_char j] \<noteq> sentinel"
  shows "convert_body [digit_char a, digit_char b, CHR '':'', digit_char c, digit_char d,
           CHR '':'', digit_char e, digit_char f, CHR ''.'', digit_char g, digit_char i,
           digit_char j]
         = Some (int (10 * a + b) * 60 * 60 * 1000 + int (10 * c + d) * 60 * 1000
                 + int (10 * e + f) * 1000 + int (100 * g + 10 * i + j))"
  unfolding convert_body_def
  using assms(10)
  by (simp add: split_dot [OF assms(1-9)] split_clock [OF assms(1-6)] py_int2 py_int3 assms(1-9)
      del: split.simps)

lemma digits2: "10 * ((h::nat) div 10) + h mod 10 = h"
  by simp

lemma digits3: "100 * ((ms::nat) div 100) + 10 * (ms div 10 mod 10) + ms mod 10 = ms"
proof -
  have "ms div 10 = 10 * (ms div 10 div 10) + ms div 10 mod 10" by simp
  moreover have "ms div 10 div 10 = ms div 100" by (simp add: div_mult2_eq)
  moreover have "ms = 10 * (ms div 10) + ms mod 10" by simp
  ultimately show ?thesis by linarith
qed

lemma convert_time_string:
  assumes "h < 100" "m < 100" "s < 100" "ms < 1000"
    and "spec_time_string h m s ms \<noteq> sentinel"
  shows "convert_time_to_milliseconds (spec_time_string h m s ms)
         = int h * 3600000 + int m * 60000 + int s * 1000 + int ms"
proof -
  have d: "h div 10 < 10" "h mod 10 < 10" "m div 10 < 10" "m mod 10 < 10" "s div 10 < 10"
    "s mod 10 < 10" "ms div 100 < 10" "ms div 10 mod 10 < 10" "ms mod 10 < 10"
    using assms by simp_all
  have ne: "[digit_char (h div 10), digit_char (h mod 10), CHR '':'',
      digit_char (m div 10), digit_char (m mod 10), CHR '':'',
      digit_char (s div 10), digit_char (s mod 10), CHR ''.'',
      digit_char (ms div 100), digit_char (ms div 10 mod 10), digit_char (ms mod 10)] \<noteq> sentinel"
    using assms(5) unfolding spec_time_string_def .
  have "convert_body (spec_time_string h m s ms)
        = Some (int (10 * (h div 10) + h mod 10) * 60 * 60 * 1000
                + int (10 * (m div 10) + m mod 10) * 60 * 1000
                + int (10 * (s div 10) + s mod 10) * 1000
                + int (100 * (ms div 100) + 10 * (ms div 10 mod 10) + ms mod 10))"
    unfolding spec_time_string_def by (rule convert_body_digits [OF d ne])
  then have "convert_body (spec_time_string h m s ms)
        = Some (int h * 60 * 60 * 1000 + int m * 60 * 1000 + int s * 1000 + int ms)"
    by (simp only: digits2 digits3)
  then show ?thesis
    by (simp add: convert_time_to_milliseconds_def)
qed

lemma str_nat_1: "n < 10 \<Longrightarrow> str_nat n = [digit_char n]"
  by (subst str_nat.simps) simp

lemma str_nat_2: "10 \<le> n \<Longrightarrow> n < 100 \<Longrightarrow> str_nat n = [digit_char (n div 10), digit_char (n mod 10)]"
  by (subst str_nat.simps) (simp add: str_nat_1)

lemma str_nat_3:
  "100 \<le> n \<Longrightarrow> n < 1000
   \<Longrightarrow> str_nat n = [digit_char (n div 100), digit_char (n div 10 mod 10), digit_char (n mod 10)]"
proof -
  assume a: "100 \<le> n" "n < 1000"
  have e: "n div 10 div 10 = n div 100"
    by (simp add: div_mult2_eq [symmetric])
  from a have "str_nat (n div 10) = [digit_char (n div 10 div 10), digit_char (n div 10 mod 10)]"
    by (intro str_nat_2) simp_all
  with a show ?thesis
    by (subst str_nat.simps) (simp add: e)
qed

lemma digit_char_0: "digit_char 0 = CHR ''0''"
  by code_simp

lemma fmt_2:
  assumes "n < 100"
  shows "fmt_0d 2 (int n) = Inr [digit_char (n div 10), digit_char (n mod 10)]"
proof (cases "n < 10")
  case True
  then show ?thesis
    by (simp add: fmt_0d_def int_max_str_digits_def zfill_def str_nat_1 digit_char_0)
next
  case False
  with assms show ?thesis
    by (simp add: fmt_0d_def int_max_str_digits_def zfill_def str_nat_2)
qed

lemma fmt_3:
  assumes "n < 1000"
  shows "fmt_0d 3 (int n)
         = Inr [digit_char (n div 100), digit_char (n div 10 mod 10), digit_char (n mod 10)]"
proof -
  consider "n < 10" | "10 \<le> n" "n < 100" | "100 \<le> n"
    by linarith
  then show ?thesis
  proof cases
    case 1
    then show ?thesis
      by (simp add: fmt_0d_def int_max_str_digits_def zfill_def str_nat_1 digit_char_0 numeral_3_eq_3)
  next
    case 2
    then show ?thesis
      by (simp add: fmt_0d_def int_max_str_digits_def zfill_def str_nat_2 digit_char_0)
  next
    case 3
    with assms show ?thesis
      by (simp add: fmt_0d_def int_max_str_digits_def zfill_def str_nat_3)
  qed
qed

lemma time_parts:
  fixes h m s ms :: nat
  assumes "m < 60" "s < 60" "ms < 1000"
  defines "N \<equiv> h * 3600000 + m * 60000 + s * 1000 + ms"
  shows "N div 3600000 = h" "(N mod 3600000) div 60000 = m" "(N mod 60000) div 1000 = s"
    "N mod 1000 = ms"
proof -
  have r: "m * 60000 + s * 1000 + ms < 3600000" "s * 1000 + ms < 60000"
    using assms by linarith+
  have N1: "N = (m * 60000 + s * 1000 + ms) + h * 3600000"
    and N2: "N = (s * 1000 + ms) + (h * 60 + m) * 60000"
    and N3: "N = ms + (h * 3600 + m * 60 + s) * 1000"
    by (simp_all add: N_def)
  show "N div 3600000 = h"
    using r by (simp only: N1 div_mult_self1 div_less)
  have m1: "N mod 3600000 = m * 60000 + s * 1000 + ms"
    using r by (simp only: N1 mod_mult_self1 mod_less)
  show "(N mod 3600000) div 60000 = m"
    using r unfolding m1 by simp
  have m2: "N mod 60000 = s * 1000 + ms"
    using r by (simp only: N2 mod_mult_self1 mod_less)
  show "(N mod 60000) div 1000 = s"
    using assms unfolding m2 by simp
  show "N mod 1000 = ms"
    using \<open>ms < 1000\<close> by (simp only: N3 mod_mult_self1 mod_less)
qed

lemma format_time_string:
  fixes h m s ms :: nat
  assumes "h < 100" "m < 60" "s < 60" "ms < 1000"
    and nz: "h \<noteq> 0 \<or> m \<noteq> 0 \<or> s \<noteq> 0 \<or> ms \<noteq> 0"
  shows "\<exists>out. format_time_difference
                 (int h * 3600000 + int m * 60000 + int s * 1000 + int ms) = Inr out
               \<and> spec_normalize out = CHR ''+'' # spec_time_string h m s ms"
proof -
  define N where "N = h * 3600000 + m * 60000 + s * 1000 + ms"
  have T: "int h * 3600000 + int m * 60000 + int s * 1000 + int ms = int N"
    by (simp add: N_def)
  have parts: "N div 3600000 = h" "(N mod 3600000) div 60000 = m" "(N mod 60000) div 1000 = s"
    "N mod 1000 = ms"
    unfolding N_def using time_parts [OF assms(2-4)] by simp_all
  have iparts: "int N div 3600000 = int h" "(int N mod 3600000) div 60000 = int m"
    "(int N mod 60000) div 1000 = int s" "int N mod 1000 = int ms"
    using parts
    by (metis of_nat_numeral zdiv_int zmod_int)+
  have N0: "int N \<noteq> 0"
    using nz by (auto simp: N_def)
  have lt: "m < 100" "s < 100"
    using assms by simp_all
  let ?hh = "[digit_char (h div 10), digit_char (h mod 10)]"
  let ?mm = "[digit_char (m div 10), digit_char (m mod 10)]"
  let ?ss = "[digit_char (s div 10), digit_char (s mod 10)]"
  let ?mmm = "[digit_char (ms div 100), digit_char (ms div 10 mod 10), digit_char (ms mod 10)]"
  have f: "format_time_difference (int N) =
     Inr (if h > 0 then ''+'' @ ?hh @ '':'' @ ?mm @ '':'' @ ?ss @ ''.'' @ ?mmm
          else if m > 0 then ''+'' @ ?mm @ '':'' @ ?ss @ ''.'' @ ?mmm
          else ''+'' @ ?ss @ ''.'' @ ?mmm)"
    using N0 unfolding format_time_difference_def
    by (simp add: iparts Let_def bind_err_def fmt_2 [OF assms(1)] fmt_2 [OF lt(1)]
        fmt_2 [OF lt(2)] fmt_3 [OF assms(4)])
  show ?thesis
    unfolding T f
    by (simp add: spec_normalize_def spec_time_string_def digit_char_0)
qed

text \<open>
  C8, as stated, fails: the time \<open>00:00:00.000\<close> is of the stated form and is not the
  sentinel, it parses to zero, and zero is formatted as the empty string.
\<close>

theorem time_round_trip_counterexample:
  "spec_time_string 0 0 0 0 = ''00:00:00.000''
   \<and> spec_time_string 0 0 0 0 \<noteq> sentinel
   \<and> format_time_difference (convert_time_to_milliseconds (spec_time_string 0 0 0 0)) = Inr []
   \<and> spec_normalize [] = []
   \<and> spec_normalize [] \<noteq> CHR ''+'' # spec_time_string 0 0 0 0"
  by code_simp

text \<open>
  C8, amended. For every time string of the form HH:MM:SS.mmm with H < 24, M < 60,
  S < 60, mmm < 1000 other than the sentinel and other than \<open>00:00:00.000\<close>, formatting
  the parsed time returns, and putting back the omitted leading components of what it
  returns gives \<open>+\<close> followed by the string.
\<close>

theorem time_round_trip:
  assumes "h < 24" "m < 60" "s < 60" "ms < 1000"
    and "spec_time_string h m s ms \<noteq> sentinel"
    and "spec_time_string h m s ms \<noteq> ''00:00:00.000''"
  shows "\<exists>out. format_time_difference
                 (convert_time_to_milliseconds (spec_time_string h m s ms)) = Inr out
               \<and> spec_normalize out = CHR ''+'' # spec_time_string h m s ms"
proof -
  have nz: "h \<noteq> 0 \<or> m \<noteq> 0 \<or> s \<noteq> 0 \<or> ms \<noteq> 0"
  proof (rule ccontr)
    assume "\<not> ?thesis"
    then have "spec_time_string h m s ms = ''00:00:00.000''"
      by (simp add: spec_time_string_def digit_char_0)
    with assms(6) show False by simp
  qed
  have lt: "h < 100" "m < 100" "s < 100"
    using assms by simp_all
  show ?thesis
    unfolding convert_time_string [OF lt assms(4,5)]
    using lt(1) assms(2-4) nz by (rule format_time_string)
qed

theorem time_round_trip_witness:
  "spec_time_string 0 20 2 500 = ''00:20:02.500''
   \<and> format_time_difference (convert_time_to_milliseconds ''00:20:02.500'') = Inr ''+20:02.500''
   \<and> spec_normalize ''+20:02.500'' = CHR ''+'' # spec_time_string 0 20 2 500"
proof -
  have a: "spec_time_string 0 20 2 500 = ''00:20:02.500''"
    by code_simp
  have b: "format_time_difference (convert_time_to_milliseconds ''00:20:02.500'')
           = Inr ''+20:02.500''"
    by code_simp
  have c: "spec_time_string 0 20 2 500 \<noteq> sentinel" "spec_time_string 0 20 2 500 \<noteq> ''00:00:00.000''"
    by code_simp+
  from time_round_trip [of 0 20 2 500, OF _ _ _ _ c]
  obtain out where o: "format_time_difference
        (convert_time_to_milliseconds (spec_time_string 0 20 2 500)) = Inr out"
    "spec_normalize out = CHR ''+'' # spec_time_string 0 20 2 500"
    by auto
  from o(1) a b have "out = ''+20:02.500''"
    by simp
  with o(2) a b show ?thesis
    by simp
qed

subsection \<open>Connecting\<close>

text \<open>
  C9, as stated, fails: \<open>connect\<close> does not look at \<open>running\<close>. A second call on a
  running client, with library calls that succeed, replaces the socket and starts a
  second receive worker.
\<close>

theorem connect_twice_counterexample:
  "(let new_app = (\<lambda>u. Returns \<lparr>url = u\<rparr>);
        start = (\<lambda>t. Returns ());
        h1 = snd (connect new_app start ''wss://a'' new_RaceTimingHandler);
        h2 = snd (connect new_app start ''wss://b'' h1)
    in running h1 \<and> websocket h1 = Some \<lparr>url = ''wss://a''\<rparr>
       \<and> workers h1 = [\<lparr>target = \<lparr>url = ''wss://a''\<rparr>\<rparr>]
       \<and> running h2 \<and> websocket h2 = Some \<lparr>url = ''wss://b''\<rparr>
       \<and> workers h2 = [\<lparr>target = \<lparr>url = ''wss://a''\<rparr>\<rparr>, \<lparr>target = \<lparr>url = ''wss://b''\<rparr>\<rparr>])"
  by (simp add: connect_def new_RaceTimingHandler_def Let_def)

text \<open>
  C9, amended. \<open>connect\<close> has no guard on \<open>running\<close>: whatever the state of the client,
  when both library calls succeed it stores the new socket, starts one more receive
  worker and leaves \<open>running\<close> true. A failure of either library call is caught inside
  \<open>connect\<close>: it starts no worker and leaves \<open>running\<close> false, and no exception
  reaches the caller.
\<close>

theorem connect_effect:
  "fst (connect new_app start ws_url h) = None
   \<and> (new_app ws_url = Raises e \<longrightarrow>
        snd (connect new_app start ws_url h) = h\<lparr>running := False\<rparr>)
   \<and> (new_app ws_url = Returns app \<and> start \<lparr>target = app\<rparr> = Raises e \<longrightarrow>
        \<not> running (snd (connect new_app start ws_url h))
        \<and> workers (snd (connect new_app start ws_url h)) = workers h)
   \<and> (new_app ws_url = Returns app \<and> start \<lparr>target = app\<rparr> = Returns () \<longrightarrow>
        running (snd (connect new_app start ws_url h))
        \<and> websocket (snd (connect new_app start ws_url h)) = Some app
        \<and> listen_thread (snd (connect new_app start ws_url h)) = Some \<lparr>target = app\<rparr>
        \<and> workers (snd (connect new_app start ws_url h)) = workers h @ [\<lparr>target = app\<rparr>])"
  by (auto simp: connect_def Let_def split: outcome.splits)

theorem connect_effect_witness:
  "snd (connect (\<lambda>u. Raises ''refused'') (\<lambda>t. Returns ()) ''wss://a''
          (new_RaceTimingHandler\<lparr>running := True\<rparr>))
     = new_RaceTimingHandler\<lparr>running := False\<rparr>
   \<and> \<not> running (snd (connect (\<lambda>u. Returns \<lparr>url = u\<rparr>) (\<lambda>t. Raises ''no thread'') ''wss://a''
          (new_RaceTimingHandler\<lparr>running := True\<rparr>)))
   \<and> running (snd (connect (\<lambda>u. Returns \<lparr>url = u\<rparr>) (\<lambda>t. Returns ()) ''wss://a''
          (new_RaceTimingHandler\<lparr>running := True\<rparr>)))
   \<and> workers (snd (connect (\<lambda>u. Returns \<lparr>url = u\<rparr>) (\<lambda>t. Returns ()) ''wss://a''
          (new_RaceTimingHandler\<lparr>running := True\<rparr>)))
       = [\<lparr>target = \<lparr>url = ''wss://a''\<rparr>\<rparr>]"
  using
    connect_effect [of "\<lambda>u. Raises ''refused''" "\<lambda>t. Returns ()" "''wss://a''"
      "new_RaceTimingHandler\<lparr>running := True\<rparr>" "''refused''" "\<lparr>url = ''wss://a''\<rparr>"]
    connect_effect [of "\<lambda>u. Returns \<lparr>url = u\<rparr>" "\<lambda>t. Raises ''no thread''" "''wss://a''"
      "new_RaceTimingHandler\<lparr>running := True\<rparr>" "''no thread''" "\<lparr>url = ''wss://a''\<rparr>"]
    connect_effect [of "\<lambda>u. Returns \<lparr>url = u\<rparr>" "\<lambda>t. Returns ()" "''wss://a''"
      "new_RaceTimingHandler\<lparr>running := True\<rparr>" "''x''" "\<lparr>url = ''wss://a''\<rparr>"]
  by (simp add: new_RaceTimingHandler_def)

subsection \<open>Ordering\<close>

lemma map_filter_map_of:
  assumes "distinct (map fst xs)"
  shows "set ys \<subseteq> set xs \<Longrightarrow> List.map_filter (map_of xs) (map fst ys) = map snd ys"
proof (induction ys)
  case Nil
  show ?case by (simp add: List.map_filter_simps)
next
  case (Cons y ys)
  obtain k v where y: "y = (k, v)" by (cases y)
  with Cons.prems have "map_of xs k = Some v"
    using assms by (simp add: map_of_is_SomeI)
  with Cons y show ?case
    by (simp add: List.map_filter_simps)
qed

lemma insort_key_map:
  "insort_key f (h x) (map h xs) = map h (insort_key (f \<circ> h) x xs)"
  by (induction xs) simp_all

lemma sort_key_map: "sort_key f (map h xs) = map h (sort_key (f \<circ> h) xs)"
proof (induction xs)
  case Nil
  show ?case by simp
next
  case (Cons x xs)
  have "sort_key f (map h (x # xs)) = insort_key f (h x) (sort_key f (map h xs))"
    by simp
  also have "\<dots> = insort_key f (h x) (map h (sort_key (f \<circ> h) xs))"
    by (simp only: Cons.IH)
  also have "\<dots> = map h (insort_key (f \<circ> h) x (sort_key (f \<circ> h) xs))"
    by (rule insort_key_map)
  also have "\<dots> = map h (sort_key (f \<circ> h) (x # xs))"
    by (simp only: sort_key_simps)
  finally show ?case .
qed

text \<open>When every key is computed, the keys are those of the elements, in their order.\<close>

lemma keys_of_total:
  assumes "\<forall>p \<in> set xs. key (snd p) = Inr (K (snd p))"
  shows "keys_of key xs = Inr (map (\<lambda>p. (K (snd p), fst p)) xs)"
  using assms
proof (induction xs)
  case Nil
  show ?case by simp
next
  case (Cons p xs)
  obtain r x where p: "p = (r, x)" by (cases p)
  from Cons.prems p have k: "key x = Inr (K x)"
    by simp
  from Cons have IH: "keys_of key xs = Inr (map (\<lambda>p. (K (snd p), fst p)) xs)"
    by simp
  show ?case
    unfolding p by (simp add: k IH bind_err_def)
qed

lemma sort_refs_total:
  fixes K :: "Competitor \<Rightarrow> 'k::linorder"
  assumes "\<forall>p \<in> set xs. key (snd p) = Inr (K (snd p))"
  shows "sort_refs key xs = Inr (map fst (sort_key (K \<circ> snd) xs))"
proof -
  have c: "fst \<circ> (\<lambda>p. (K (snd p), fst p)) = K \<circ> snd"
    by (simp add: fun_eq_iff)
  have "map snd (sort_key fst (map (\<lambda>p. (K (snd p), fst p)) xs))
        = map fst (sort_key (K \<circ> snd) xs)"
    unfolding sort_key_map c by (simp add: comp_def)
  then show ?thesis
    unfolding sort_refs_def keys_of_total [OF assms] by (simp add: bind_err_def)
qed

text \<open>A key that raises makes the sort raise.\<close>

lemma keys_of_raises:
  assumes "(r, x) \<in> set xs" "key x = Inl e"
  shows "\<exists>e'. keys_of key xs = Inl e'"
  using assms(1)
proof (induction xs)
  case Nil
  then show ?case by simp
next
  case (Cons p xs)
  obtain r' x' where p: "p = (r', x')" by (cases p)
  show ?case
  proof (cases "key x'")
    case (Inl e')
    then show ?thesis
      unfolding p by (simp add: bind_err_def)
  next
    case (Inr k)
    with Cons.prems p assms(2) have "(r, x) \<in> set xs"
      by auto
    then obtain e' where "keys_of key xs = Inl e'"
      using Cons.IH by blast
    with Inr show ?thesis
      unfolding p by (simp add: bind_err_def)
  qed
qed

lemma sorted_objs_refs:
  fixes K :: "Competitor \<Rightarrow> 'k::linorder"
  assumes "distinct (map fst (competitors s))"
  shows "sorted_objs (s\<lparr>sorted_competitors := map fst (sort_key (K \<circ> snd) (competitors s))\<rparr>)
         = map snd (sort_key (K \<circ> snd) (competitors s))"
proof -
  have "List.map_filter (map_of (competitors s))
          (map fst (sort_key (K \<circ> snd) (competitors s)))
        = map snd (sort_key (K \<circ> snd) (competitors s))"
    by (rule map_filter_map_of [OF assms]) simp
  then show ?thesis
    by (simp add: sorted_objs_def get_obj_def [abs_def])
qed

lemma sorted_proj_sort_key:
  fixes K :: "'b \<Rightarrow> 'k::linorder"
  shows "sorted (map K (map snd (sort_key (K \<circ> snd) xs)))"
  using sorted_sort_key [of "K \<circ> snd" xs] by (simp add: comp_def)

lemma mset_proj_sort_key:
  fixes K :: "'b \<Rightarrow> 'k::linorder"
  shows "mset (map snd (sort_key (K \<circ> snd) xs)) = mset (map snd xs)"
proof -
  have "mset (sort_key (K \<circ> snd) xs) = mset xs" by simp
  then show ?thesis by (metis mset_map)
qed

lemma stable_proj_sort_key:
  fixes K :: "'b \<Rightarrow> 'k::linorder"
  shows "filter (\<lambda>c. K c = k) (map snd (sort_key (K \<circ> snd) xs))
         = filter (\<lambda>c. K c = k) (map snd xs)"
  using sort_key_stable [of "K \<circ> snd" k xs]
  by (simp add: filter_map comp_def)

lemma sorted_precedes:
  fixes K :: "'b \<Rightarrow> 'k::linorder"
  assumes "sorted (map K cs)" "i < length cs" "j < length cs" "K (cs ! i) < K (cs ! j)"
  shows "i < j"
proof (rule ccontr)
  assume "\<not> i < j"
  then have "j \<le> i" by simp
  with assms(1,2) have "map K cs ! j \<le> map K cs ! i"
    by (intro sorted_nth_mono) simp_all
  with assms show False by simp
qed

text \<open>The RACE key, written out.\<close>

lemma race_key_explicit:
  "race_key x =
     (case (if isdigit (laps x) then py_int (laps x) else Some 0) of
        None \<Rightarrow> Inl ValueError
      | Some l \<Rightarrow>
          Inr (if position x \<noteq> [] \<and> isdigit (position x)
               then (case py_int (position x) of Some v \<Rightarrow> v | None \<Rightarrow> 9999) else 9999,
               - l,
               if total_time_milliseconds x \<le> 0 then PosInf
               else Finite (total_time_milliseconds x)))"
  by (simp add: race_key_def get_position_number_def int_if_isdigit_def bind_err_def
      split: option.splits)

lemma race_key_returns:
  assumes "isdigit (laps x) \<longrightarrow> py_int (laps x) \<noteq> None"
  shows "race_key x = Inr (projr (race_key x))"
  using assms
  by (auto simp: race_key_def int_if_isdigit_def bind_err_def split: option.splits)

lemma fst_race_key:
  assumes "race_key x = Inr k"
  shows "fst k = get_position_number (position x)"
  using assms
  by (auto simp: race_key_def int_if_isdigit_def bind_err_def split: option.splits if_splits)

lemma qualifying_key_explicit:
  "qualifying_key x =
     (if best_time_milliseconds x \<le> 0 then PosInf else Finite (best_time_milliseconds x),
      if best_position x \<noteq> [] \<and> isdigit (best_position x)
      then (case py_int (best_position x) of Some v \<Rightarrow> v | None \<Rightarrow> 9999) else 9999)"
  by (simp add: qualifying_key_def get_position_number_def)

text \<open>
  On a string of decimal digits, at most 4300 of them, \<open>int\<close> gives the number that the
  digits write.
\<close>

lemma is_decimal_not_special:
  assumes "is_decimal c"
  shows "\<not> int_space c" "c \<noteq> CHR ''-''" "c \<noteq> CHR ''+''" "c \<noteq> CHR ''_''"
proof -
  from assms have r: "48 \<le> (of_char c :: nat)" "(of_char c :: nat) \<le> 57"
    by (simp_all add: is_decimal_def Let_def)
  then show "\<not> int_space c"
    by (simp add: int_space_def Let_def)
  have ne: "c \<noteq> d" if "(of_char d :: nat) < 48 \<or> 57 < (of_char d :: nat)" for d
  proof
    assume "c = d"
    with r that show False by simp
  qed
  show "c \<noteq> CHR ''-''" "c \<noteq> CHR ''+''" "c \<noteq> CHR ''_''"
    by (rule ne, simp)+
qed

lemma int_body_decimal: "s \<noteq> [] \<Longrightarrow> list_all is_decimal s \<Longrightarrow> int_body s"
  by (induction s rule: int_body.induct) (simp_all add: is_decimal_not_special(4))

lemma int_strip_decimal:
  assumes "s \<noteq> []" "list_all is_decimal s"
  shows "rev (dropWhile int_space (rev (dropWhile int_space s))) = s"
proof -
  from assms have "\<not> int_space (hd s)" "\<not> int_space (last s)"
    by (auto simp: list_all_iff is_decimal_not_special(1))
  with assms(1) have "dropWhile int_space s = s" "dropWhile int_space (rev s) = rev s"
    by (simp_all add: dropWhile_eq_self_iff hd_rev)
  then show ?thesis
    by simp
qed

lemma py_int_decimal:
  assumes "spec_all_digits s" "length s \<le> 4300"
  shows "py_int s = Some (int (digits_value s))"
proof -
  from assms(1) have ne: "s \<noteq> []" and all: "list_all is_decimal s"
    by (simp_all add: spec_all_digits_def)
  from ne all have h: "is_decimal (hd s)"
    by (cases s) simp_all
  have "c \<noteq> CHR ''_''" if "c \<in> set s" for c
    using that all is_decimal_not_special(4) [of c] by (simp add: list_all_iff)
  then have u: "remove_char CHR ''_'' s = s"
    by (simp add: remove_char_def filter_id_conv)
  show ?thesis
    using ne is_decimal_not_special(2,3) [OF h] assms(2)
    by (simp add: py_int_def int_strip_decimal [OF ne all] int_body_decimal [OF ne all] u
        Let_def int_max_str_digits_def)
qed

lemma position_number_decimal:
  assumes "spec_all_digits s" "length s \<le> 4300"
  shows "get_position_number s = int (digits_value s)"
proof -
  from assms(1) have "s \<noteq> []" "isdigit s"
    by (auto simp: spec_all_digits_def isdigit_def is_digit_def list_all_iff Let_def)
  then show ?thesis
    by (simp add: get_position_number_def py_int_decimal [OF assms])
qed

text \<open>
  C5, as stated, fails: the code takes the time component of the RACE key to be infinite
  whenever \<open>total_time_milliseconds\<close> is not positive, and a total time such as \<open>-1\<close>
  parses to a negative count. With equal positions and laps, the code puts the
  competitor with the negative count last, where the key of the claim puts it first.
\<close>

theorem race_key_counterexample:
  "fst (process_data ''$G,1,1,5,-1\<newline>$G,1,2,5,00:00:05.000'' new_RaceTimingHandler) = None
   \<and> sorted_competitors (session (snd (process_data ''$G,1,1,5,-1\<newline>$G,1,2,5,00:00:05.000''
       new_RaceTimingHandler))) = [''2'', ''1'']
   \<and> map spec_race_key (sorted_objs (session (snd (process_data
       ''$G,1,1,5,-1\<newline>$G,1,2,5,00:00:05.000'' new_RaceTimingHandler))))
       = [(1, - 5, Finite 5000), (1, - 5, Finite (- 1000))]
   \<and> \<not> sorted (map spec_race_key (sorted_objs (session (snd (process_data
       ''$G,1,1,5,-1\<newline>$G,1,2,5,00:00:05.000'' new_RaceTimingHandler)))))"
  by code_simp

text \<open>
  C5, amended. Take a session in RACE mode in which \<open>int\<close> accepts the laps of every
  competitor whose laps satisfy \<open>str.isdigit\<close>. Then \<open>sort_competitors\<close> returns, changes
  \<open>sorted_competitors\<close> only, and orders the values of the competitor map ascending by
  the triple of the position key, the negated laps and the total time. The position
  key is \<open>int\<close> of the position when the position is non-empty, satisfies \<open>str.isdigit\<close>
  and \<open>int\<close> accepts it, and 9999 otherwise; on a string of at most 4300 decimal digits
  it is the number that the digits write. The laps are \<open>int\<close> of the laps when they
  satisfy \<open>str.isdigit\<close> and 0 otherwise. The time component is infinite when
  \<open>total_time_milliseconds\<close> is zero or negative and the value itself otherwise. The sort
  is a stable rearrangement of the map's values. Hence, of two competitors, the one
  with the smaller position key comes first.
\<close>

theorem race_sort_order:
  assumes "distinct (map fst (competitors s))" and "sort_mode s = RACE"
    and "\<forall>x \<in> snd ` set (competitors s). isdigit (laps x) \<longrightarrow> py_int (laps x) \<noteq> None"
  shows "(\<exists>s' ks. sort_competitors s = Inr s'
        \<and> s' = s\<lparr>sorted_competitors := sorted_competitors s'\<rparr>
        \<and> map race_key (sorted_objs s') = map Inr ks \<and> sorted ks
        \<and> mset (sorted_objs s') = mset (map snd (competitors s))
        \<and> (\<forall>k. filter (\<lambda>c. race_key c = k) (sorted_objs s')
               = filter (\<lambda>c. race_key c = k) (map snd (competitors s)))
        \<and> (\<forall>i j. i < length (sorted_objs s') \<and> j < length (sorted_objs s')
             \<and> get_position_number (position (sorted_objs s' ! i))
                 < get_position_number (position (sorted_objs s' ! j))
             \<longrightarrow> i < j))
    \<and> (\<forall>x. race_key x =
          (case (if isdigit (laps x) then py_int (laps x) else Some 0) of
             None \<Rightarrow> Inl ValueError
           | Some l \<Rightarrow>
               Inr (if position x \<noteq> [] \<and> isdigit (position x)
                    then (case py_int (position x) of Some v \<Rightarrow> v | None \<Rightarrow> 9999) else 9999,
                    - l,
                    if total_time_milliseconds x \<le> 0 then PosInf
                    else Finite (total_time_milliseconds x))))
    \<and> (\<forall>t. get_position_number t =
          (if t \<noteq> [] \<and> isdigit t then (case py_int t of Some v \<Rightarrow> v | None \<Rightarrow> 9999)
           else 9999))
    \<and> (\<forall>t. spec_all_digits t \<and> length t \<le> 4300
          \<longrightarrow> py_int t = Some (int (digits_value t))
            \<and> get_position_number t = int (digits_value t))"
proof -
  define K where "K = (\<lambda>x. projr (race_key x))"
  have tot: "\<forall>p \<in> set (competitors s). race_key (snd p) = Inr (K (snd p))"
  proof
    fix p
    assume "p \<in> set (competitors s)"
    then have "snd p \<in> snd ` set (competitors s)"
      by (rule imageI)
    with assms(3) have "isdigit (laps (snd p)) \<longrightarrow> py_int (laps (snd p)) \<noteq> None"
      by blast
    then show "race_key (snd p) = Inr (K (snd p))"
      unfolding K_def by (rule race_key_returns)
  qed
  have refs: "sort_refs race_key (competitors s)
              = Inr (map fst (sort_key (K \<circ> snd) (competitors s)))"
    by (rule sort_refs_total [OF tot])
  define s' where "s' = s\<lparr>sorted_competitors := map fst (sort_key (K \<circ> snd) (competitors s))\<rparr>"
  have ret: "sort_competitors s = Inr s'"
    using assms(2) by (simp add: sort_competitors_def refs bind_err_def s'_def)
  have frame: "s' = s\<lparr>sorted_competitors := sorted_competitors s'\<rparr>"
    by (simp add: s'_def)
  have objs: "sorted_objs s' = map snd (sort_key (K \<circ> snd) (competitors s))"
    unfolding s'_def by (rule sorted_objs_refs [OF assms(1)])
  have mem: "set (sorted_objs s') = snd ` set (competitors s)"
    unfolding objs by simp
  have all1: "race_key c = Inr (K c)" if "c \<in> snd ` set (competitors s)" for c
    using that tot by auto
  define ks where "ks = map K (sorted_objs s')"
  have srt: "sorted ks"
    unfolding ks_def objs by (rule sorted_proj_sort_key)
  have keys: "map race_key (sorted_objs s') = map Inr ks"
    unfolding ks_def using all1 mem by (simp add: comp_def)
  have perm: "mset (sorted_objs s') = mset (map snd (competitors s))"
    unfolding objs by (rule mset_proj_sort_key)
  have filt: "filter (\<lambda>c. race_key c = k) cs
              = (case k of Inl e \<Rightarrow> [] | Inr k' \<Rightarrow> filter (\<lambda>c. K c = k') cs)"
    if "set cs = snd ` set (competitors s)" for k cs
  proof (cases k)
    case (Inl e)
    have "filter (\<lambda>c. race_key c = Inl e) cs = []"
      unfolding filter_empty_conv using all1 that by simp
    with Inl show ?thesis by simp
  next
    case (Inr k')
    have "filter (\<lambda>c. race_key c = Inr k') cs = filter (\<lambda>c. K c = k') cs"
      by (rule filter_cong [OF refl]) (simp add: all1 that)
    with Inr show ?thesis by simp
  qed
  have stab: "\<forall>k. filter (\<lambda>c. race_key c = k) (sorted_objs s')
               = filter (\<lambda>c. race_key c = k) (map snd (competitors s))"
  proof
    fix k
    have "filter (\<lambda>c. race_key c = k) (sorted_objs s')
          = (case k of Inl e \<Rightarrow> [] | Inr k' \<Rightarrow> filter (\<lambda>c. K c = k') (sorted_objs s'))"
      by (rule filt [OF mem])
    also have "\<dots> = (case k of Inl e \<Rightarrow> []
                     | Inr k' \<Rightarrow> filter (\<lambda>c. K c = k') (map snd (competitors s)))"
      unfolding objs by (simp add: stable_proj_sort_key split: sum.splits)
    also have "\<dots> = filter (\<lambda>c. race_key c = k) (map snd (competitors s))"
      by (rule filt [symmetric]) simp
    finally show "filter (\<lambda>c. race_key c = k) (sorted_objs s')
               = filter (\<lambda>c. race_key c = k) (map snd (competitors s))" .
  qed
  have prec: "\<forall>i j. i < length (sorted_objs s') \<and> j < length (sorted_objs s')
             \<and> get_position_number (position (sorted_objs s' ! i))
                 < get_position_number (position (sorted_objs s' ! j))
             \<longrightarrow> i < j"
  proof (intro allI impI)
    fix i j
    assume a: "i < length (sorted_objs s') \<and> j < length (sorted_objs s')
             \<and> get_position_number (position (sorted_objs s' ! i))
                 < get_position_number (position (sorted_objs s' ! j))"
    from a mem have "sorted_objs s' ! i \<in> snd ` set (competitors s)"
      "sorted_objs s' ! j \<in> snd ` set (competitors s)"
      using nth_mem by blast+
    then have "fst (K (sorted_objs s' ! i)) = get_position_number (position (sorted_objs s' ! i))"
      "fst (K (sorted_objs s' ! j)) = get_position_number (position (sorted_objs s' ! j))"
      using all1 fst_race_key by blast+
    with a have "K (sorted_objs s' ! i) < K (sorted_objs s' ! j)"
      by (simp add: less_prod_def)
    with srt a show "i < j"
      unfolding ks_def
      by (intro sorted_precedes [of K "sorted_objs s'" i j]) simp_all
  qed
  have key: "\<forall>x. race_key x =
          (case (if isdigit (laps x) then py_int (laps x) else Some 0) of
             None \<Rightarrow> Inl ValueError
           | Some l \<Rightarrow>
               Inr (if position x \<noteq> [] \<and> isdigit (position x)
                    then (case py_int (position x) of Some v \<Rightarrow> v | None \<Rightarrow> 9999) else 9999,
                    - l,
                    if total_time_milliseconds x \<le> 0 then PosInf
                    else Finite (total_time_milliseconds x)))"
    by (intro allI race_key_explicit)
  have pos: "\<forall>t. get_position_number t =
          (if t \<noteq> [] \<and> isdigit t then (case py_int t of Some v \<Rightarrow> v | None \<Rightarrow> 9999)
           else 9999)"
    by (simp add: get_position_number_def)
  have dec: "\<forall>t. spec_all_digits t \<and> length t \<le> 4300
          \<longrightarrow> py_int t = Some (int (digits_value t))
            \<and> get_position_number t = int (digits_value t)"
    using py_int_decimal position_number_decimal by simp
  have ex: "\<exists>s' ks. sort_competitors s = Inr s'
        \<and> s' = s\<lparr>sorted_competitors := sorted_competitors s'\<rparr>
        \<and> map race_key (sorted_objs s') = map Inr ks \<and> sorted ks
        \<and> mset (sorted_objs s') = mset (map snd (competitors s))
        \<and> (\<forall>k. filter (\<lambda>c. race_key c = k) (sorted_objs s')
               = filter (\<lambda>c. race_key c = k) (map snd (competitors s)))
        \<and> (\<forall>i j. i < length (sorted_objs s') \<and> j < length (sorted_objs s')
             \<and> get_position_number (position (sorted_objs s' ! i))
                 < get_position_number (position (sorted_objs s' ! j))
             \<longrightarrow> i < j)"
    by (intro exI [of _ s'] exI [of _ ks] conjI ret frame keys srt perm stab prec)
  show ?thesis
    by (intro conjI ex key pos dec)
qed

theorem race_sort_order_witness:
  "distinct (map fst (competitors (session after_two_car)))
   \<and> sort_mode (session after_two_car) = RACE
   \<and> map laps (map snd (competitors (session after_two_car))) = [''10'', ''10'']
   \<and> isdigit ''10'' \<and> py_int ''10'' = Some 10
   \<and> (\<exists>s' ks. sort_competitors (session after_two_car) = Inr s'
        \<and> map racer_id (sorted_objs s') = [''1'', ''2'']
        \<and> map position (sorted_objs s') = [''1'', ''2'']
        \<and> map race_key (sorted_objs s') = map Inr ks \<and> sorted ks
        \<and> mset (sorted_objs s') = mset (map snd (competitors (session after_two_car))))"
proof -
  have h1: "distinct (map fst (competitors (session after_two_car)))"
    by code_simp
  have h2: "sort_mode (session after_two_car) = RACE"
    by code_simp
  have h3: "\<forall>x \<in> snd ` set (competitors (session after_two_car)).
              isdigit (laps x) \<longrightarrow> py_int (laps x) \<noteq> None"
    by code_simp
  have l: "map laps (map snd (competitors (session after_two_car))) = [''10'', ''10'']"
    "isdigit ''10''" "py_int ''10'' = Some 10"
    by code_simp+
  have e: "map racer_id (sorted_objs (projr (sort_competitors (session after_two_car))))
             = [''1'', ''2'']"
    "map position (sorted_objs (projr (sort_competitors (session after_two_car))))
             = [''1'', ''2'']"
    by code_simp+
  from race_sort_order [OF h1 h2 h3]
  obtain s' ks where r: "sort_competitors (session after_two_car) = Inr s'"
    "map race_key (sorted_objs s') = map Inr ks" "sorted ks"
    "mset (sorted_objs s') = mset (map snd (competitors (session after_two_car)))"
    by blast
  from e r(1) have n: "map racer_id (sorted_objs s') = [''1'', ''2'']"
    "map position (sorted_objs s') = [''1'', ''2'']"
    by simp_all
  have "\<exists>s' ks. sort_competitors (session after_two_car) = Inr s'
        \<and> map racer_id (sorted_objs s') = [''1'', ''2'']
        \<and> map position (sorted_objs s') = [''1'', ''2'']
        \<and> map race_key (sorted_objs s') = map Inr ks \<and> sorted ks
        \<and> mset (sorted_objs s') = mset (map snd (competitors (session after_two_car)))"
    by (intro exI [of _ s'] exI [of _ ks] conjI r n)
  then show ?thesis
    by (intro conjI h1 h2 l)
qed

text \<open>
  C7, as stated, fails in its scenario: the order becomes racer 2, racer 1, but the Diff
  of the second row is computed from the total times, as in RACE mode, and is
  \<open>+02.500\<close>, not the difference of the best times.
\<close>

theorem qualifying_diff_counterexample:
  "fst (process_data scenario_two_car new_RaceTimingHandler) = None
   \<and> fst (process_data scenario_qualifying after_two_car) = None
   \<and> map col_RacerID (competitors_df after_qualifying) = [''2'', ''1'']
   \<and> col_Diff (competitors_df after_qualifying ! 1) = ''+02.500''
   \<and> format_time_difference 1400 = Inr ''+01.400''
   \<and> Inr (col_Diff (competitors_df after_qualifying ! 1)) \<noteq> format_time_difference 1400"
  by code_simp

text \<open>
  C7, amended. In QUALIFYING mode \<open>sort_competitors\<close> returns, changes
  \<open>sorted_competitors\<close> only, and orders the values of the competitor map ascending by
  the pair of the best time, infinite when \<open>best_time_milliseconds\<close> is not positive,
  and the position key of \<open>best_position\<close>, as a stable rearrangement of the map's
  values. The position key is \<open>int\<close> of the string when the string is non-empty,
  satisfies \<open>str.isdigit\<close> and \<open>int\<close> accepts it, and 9999 otherwise; on a string of at
  most 4300 decimal digits it is the number that the digits write. In the qualifying
  scenario both frames are processed without an exception, the order becomes racer 2,
  racer 1, and the Diff column is computed from the total times: the second row shows
  the formatted difference of 00:20:02.500 and 00:20:00.000.
\<close>

theorem qualifying_sort_order:
  assumes "distinct (map fst (competitors s))" and "sort_mode s = QUALIFYING"
  shows "(\<exists>s'. sort_competitors s = Inr s'
        \<and> s' = s\<lparr>sorted_competitors := sorted_competitors s'\<rparr>
        \<and> sorted (map qualifying_key (sorted_objs s'))
        \<and> mset (sorted_objs s') = mset (map snd (competitors s))
        \<and> (\<forall>k. filter (\<lambda>c. qualifying_key c = k) (sorted_objs s')
               = filter (\<lambda>c. qualifying_key c = k) (map snd (competitors s))))
    \<and> (\<forall>x. qualifying_key x =
          (if best_time_milliseconds x \<le> 0 then PosInf else Finite (best_time_milliseconds x),
           if best_position x \<noteq> [] \<and> isdigit (best_position x)
           then (case py_int (best_position x) of Some v \<Rightarrow> v | None \<Rightarrow> 9999) else 9999))
    \<and> (\<forall>t. spec_all_digits t \<and> length t \<le> 4300
          \<longrightarrow> py_int t = Some (int (digits_value t)))
    \<and> fst (process_data scenario_two_car new_RaceTimingHandler) = None
    \<and> fst (process_data scenario_qualifying after_two_car) = None
    \<and> sort_mode (session after_qualifying) = QUALIFYING
    \<and> sorted_competitors (session after_qualifying) = [''2'', ''1'']
    \<and> map col_RacerID (competitors_df after_qualifying) = [''2'', ''1'']
    \<and> map col_Diff (competitors_df after_qualifying) = [''-'', ''+02.500'']
    \<and> format_time_difference \<bar>1200000 - 1202500\<bar> = Inr ''+02.500''"
proof -
  have tot: "\<forall>p \<in> set (competitors s).
               (\<lambda>x. Inr (qualifying_key x)) (snd p) = Inr (qualifying_key (snd p))"
    by simp
  have refs: "sort_refs (\<lambda>x. Inr (qualifying_key x)) (competitors s)
              = Inr (map fst (sort_key (qualifying_key \<circ> snd) (competitors s)))"
    by (rule sort_refs_total [OF tot])
  define s' where
    "s' = s\<lparr>sorted_competitors := map fst (sort_key (qualifying_key \<circ> snd) (competitors s))\<rparr>"
  have ret: "sort_competitors s = Inr s'"
    using assms(2) by (simp add: sort_competitors_def refs bind_err_def s'_def)
  have frame: "s' = s\<lparr>sorted_competitors := sorted_competitors s'\<rparr>"
    by (simp add: s'_def)
  have objs: "sorted_objs s' = map snd (sort_key (qualifying_key \<circ> snd) (competitors s))"
    unfolding s'_def by (rule sorted_objs_refs [OF assms(1)])
  have srt: "sorted (map qualifying_key (sorted_objs s'))"
    unfolding objs by (rule sorted_proj_sort_key)
  have perm: "mset (sorted_objs s') = mset (map snd (competitors s))"
    unfolding objs by (rule mset_proj_sort_key)
  have stab: "\<forall>k. filter (\<lambda>c. qualifying_key c = k) (sorted_objs s')
            = filter (\<lambda>c. qualifying_key c = k) (map snd (competitors s))"
    unfolding objs by (intro allI stable_proj_sort_key)
  have ex: "\<exists>s'. sort_competitors s = Inr s'
        \<and> s' = s\<lparr>sorted_competitors := sorted_competitors s'\<rparr>
        \<and> sorted (map qualifying_key (sorted_objs s'))
        \<and> mset (sorted_objs s') = mset (map snd (competitors s))
        \<and> (\<forall>k. filter (\<lambda>c. qualifying_key c = k) (sorted_objs s')
               = filter (\<lambda>c. qualifying_key c = k) (map snd (competitors s)))"
    by (intro exI [of _ s'] conjI ret frame srt perm stab)
  have key: "\<forall>x. qualifying_key x =
          (if best_time_milliseconds x \<le> 0 then PosInf else Finite (best_time_milliseconds x),
           if best_position x \<noteq> [] \<and> isdigit (best_position x)
           then (case py_int (best_position x) of Some v \<Rightarrow> v | None \<Rightarrow> 9999) else 9999)"
    by (intro allI qualifying_key_explicit)
  have dec: "\<forall>t. spec_all_digits t \<and> length t \<le> 4300
          \<longrightarrow> py_int t = Some (int (digits_value t))"
    using py_int_decimal by simp
  have sc: "fst (process_data scenario_two_car new_RaceTimingHandler) = None"
    "fst (process_data scenario_qualifying after_two_car) = None"
    "sort_mode (session after_qualifying) = QUALIFYING"
    "sorted_competitors (session after_qualifying) = [''2'', ''1'']"
    "map col_RacerID (competitors_df after_qualifying) = [''2'', ''1'']"
    "map col_Diff (competitors_df after_qualifying) = [''-'', ''+02.500'']"
    "format_time_difference \<bar>1200000 - 1202500\<bar> = Inr ''+02.500''"
    by code_simp+
  show ?thesis
    by (intro conjI ex key dec sc)
qed

theorem qualifying_sort_order_witness:
  "distinct (map fst (competitors (session after_qualifying)))
   \<and> sort_mode (session after_qualifying) = QUALIFYING
   \<and> (\<exists>s'. sort_competitors (session after_qualifying) = Inr s'
        \<and> map racer_id (sorted_objs s') = [''2'', ''1'']
        \<and> sorted (map qualifying_key (sorted_objs s'))
        \<and> mset (sorted_objs s') = mset (map snd (competitors (session after_qualifying))))"
proof -
  have h1: "distinct (map fst (competitors (session after_qualifying)))"
    by code_simp
  have h2: "sort_mode (session after_qualifying) = QUALIFYING"
    by code_simp
  have e: "map racer_id (sorted_objs (projr (sort_competitors (session after_qualifying))))
             = [''2'', ''1'']"
    by code_simp
  from qualifying_sort_order [OF h1 h2]
  obtain s' where r: "sort_competitors (session after_qualifying) = Inr s'"
    "sorted (map qualifying_key (sorted_objs s'))"
    "mset (sorted_objs s') = mset (map snd (competitors (session after_qualifying)))"
    by blast
  from e r(1) have n: "map racer_id (sorted_objs s') = [''2'', ''1'']"
    by simp
  have "\<exists>s'. sort_competitors (session after_qualifying) = Inr s'
        \<and> map racer_id (sorted_objs s') = [''2'', ''1'']
        \<and> sorted (map qualifying_key (sorted_objs s'))
        \<and> mset (sorted_objs s') = mset (map snd (competitors (session after_qualifying)))"
    by (intro exI [of _ s'] conjI r n)
  then show ?thesis
    by (intro conjI h1 h2)
qed

subsection \<open>Gaps and diffs\<close>

text \<open>
  In RACE mode the sort raises as soon as one competitor has laps that \<open>str.isdigit\<close>
  accepts and \<open>int\<close> does not: a superscript digit, or more than 4300 digits.
\<close>

lemma race_key_raises:
  assumes "isdigit (laps x)" "py_int (laps x) = None"
  shows "race_key x = Inl ValueError"
  using assms by (simp add: race_key_def int_if_isdigit_def bind_err_def)

lemma race_sort_raises:
  assumes "sort_mode s = RACE" "(r, x) \<in> set (competitors s)"
    and "isdigit (laps x)" "py_int (laps x) = None"
  shows "sort_competitors s = Inl ValueError"
proof -
  from keys_of_raises [of r x "competitors s" race_key ValueError,
      OF assms(2) race_key_raises [OF assms(3,4)]]
  obtain e where "keys_of race_key (competitors s) = Inl e"
    by blast
  moreover have "e = ValueError"
    by (cases e) simp
  ultimately show ?thesis
    using assms(1) by (simp add: sort_competitors_def sort_refs_def bind_err_def)
qed

lemma session_update_raises:
  assumes "sort_competitors (session h) = Inl e"
  shows "handle_session_update h = (Some e, h)"
  using assms by (simp add: handle_session_update_def)

text \<open>
  C6 fails after a batch whose sort raises. The first frame gives two competitors a
  total time, and the gap of the second is \<open>+02.500\<close>. The second frame moves the
  total time of the second competitor and names a third competitor whose laps are the
  superscript two. \<open>process_data\<close> raises \<open>ValueError\<close> out of \<open>handle_session_update\<close>:
  the third competitor is in the map and not in \<open>sorted_competitors\<close>, and the gap and
  the diff of the second competitor are still \<open>+02.500\<close>, where \<open>diff_against\<close> the
  leader is \<open>+05.000\<close>; the table is the one of the first frame.
\<close>

theorem stale_gap_after_raising_batch:
  "fst (process_data frame_two_times new_RaceTimingHandler) = None
   \<and> sorted_competitors (session after_two_times) = [''a'', ''b'']
   \<and> map calculated_gap (sorted_objs (session after_two_times)) = ['''', ''+02.500'']
   \<and> fst (process_data frame_bad_laps after_two_times) = Some ValueError
   \<and> map fst (competitors (session after_bad_laps)) = [''a'', ''b'', ''c'']
   \<and> map laps (map snd (competitors (session after_bad_laps))) = [''10'', ''10'', [CHR 0xB2]]
   \<and> sorted_competitors (session after_bad_laps) = [''a'', ''b'']
   \<and> map total_time_milliseconds (sorted_objs (session after_bad_laps)) = [1200000, 1205000]
   \<and> map calculated_gap (sorted_objs (session after_bad_laps)) = ['''', ''+02.500'']
   \<and> map calculated_diff (sorted_objs (session after_bad_laps)) = ['''', ''+02.500'']
   \<and> diff_against (sorted_objs (session after_bad_laps) ! 1)
        (sorted_objs (session after_bad_laps) ! 0) = Inr ''+05.000''
   \<and> calculated_gap (sorted_objs (session after_bad_laps) ! 1) = ''+02.500''
   \<and> competitors_df after_bad_laps = competitors_df after_two_times
   \<and> map col_Time (competitors_df after_bad_laps) = [''00:20:00.000'', ''00:20:02.500'']"
  by code_simp

end
